theory Spec2Isabelle
  imports Main
begin

section \<open>Keys, durations and errors\<close>

text \<open>
  The driver in \<^verbatim>\<open>drivers/store/redis/store.go\<close> keeps one fixed-window counter per
  key in a shared key-value store. A \<^verbatim>\<open>time.Duration\<close> is a signed count of
  nanoseconds and a \<^verbatim>\<open>time.Time\<close> is taken as nanoseconds since the epoch; both are
  integers here, and \<^verbatim>\<open>now.Add(d)\<close> is addition (no claim depends on the 64-bit
  range of an instant). The unused \<^verbatim>\<open>context.Context\<close> argument of the public
  methods is left out, and the clock reading \<^verbatim>\<open>time.Now()\<close> is an argument.
\<close>

type_synonym key = string
type_synonym duration = int
type_synonym time = int

definition Millisecond :: duration where
  "Millisecond = 1000000"

definition Second :: duration where
  "Second = 1000 * Millisecond"

definition Add :: "time \<Rightarrow> duration \<Rightarrow> time" where
  "Add t d = t + d"

text \<open>
  Errors as values. \<open>RedisNil\<close> is the client's \<^verbatim>\<open>redis.Nil\<close> (the reply for a key
  that does not exist), \<open>TxFailedErr\<close> its optimistic-lock abort, \<open>Failure\<close> any other
  error a command can report (an I/O failure, an error reply of the server, a reply
  that does not parse). \<open>ErrorsNew\<close> and \<open>Wrap\<close> are \<^verbatim>\<open>errors.New\<close> and
  \<^verbatim>\<open>errors.Wrap\<close>/\<^verbatim>\<open>errors.Wrapf\<close> with the formatted message.
\<close>

datatype error =
    RedisNil
  | TxFailedErr
  | Failure string
  | ErrorsNew string
  | Wrap error string

definition RetryExhausted :: error where
  "RetryExhausted = ErrorsNew ''retry limit exceeded''"

definition CannotSetExpiration :: error where
  "CannotSetExpiration = ErrorsNew ''cannot configure timeout on key''"

record Rate =
  Formatted :: string
  Period :: duration
  Limit :: int

text \<open>
  Modelled from the spec: \<^verbatim>\<open>common.GetContextFromState\<close> and the
  \<^verbatim>\<open>limiter.Context\<close> it builds are not part of the source file. The spec describes the
  value handed back to the caller as a CounterState: the timestamp of the call, the
  window used, the counter value and the absolute expiration instant.
\<close>

record CounterState =
  timestamp :: time
  window :: duration
  count :: int
  expiration :: time

definition GetContextFromState :: "time \<Rightarrow> Rate \<Rightarrow> time \<Rightarrow> int \<Rightarrow> CounterState" where
  "GetContextFromState now rate expiration' count' =
     \<lparr>timestamp = now, window = Period rate, count = count', expiration = expiration'\<rparr>"

definition empty_Context :: CounterState where
  "empty_Context = \<lparr>timestamp = 0, window = 0, count = 0, expiration = 0\<rparr>"

section \<open>The backing store\<close>

text \<open>
  Modelled from the spec: the backing store behind the \<^verbatim>\<open>Client\<close> interface is
  an external collaborator and not part of the source. It is modelled at the level of
  the commands that section 6 of the spec lists: conditional set, atomic add,
  time-to-live query, expire-setting, watched batch and liveness probe; the sentinel
  values and the error replies are those the store documents for these commands.
  A stored value is either integer-shaped (\<open>IntVal\<close>, the decimal text of a 64-bit
  integer) or any other text (\<open>RawVal\<close>). Every key has an optional remaining
  time-to-live. The client sends an expiration as a whole number of milliseconds or
  seconds, cut off towards zero, as its functions \<^verbatim>\<open>usePrecise\<close>, \<^verbatim>\<open>formatMs\<close> and
  \<^verbatim>\<open>formatSec\<close> compute it.

  Each round trip to the store takes the next event of a script: \<open>Normal\<close> lets the
  command run, \<open>Fault e\<close> makes it fail with \<open>e\<close> without effect (a transaction
  conflict is \<open>Fault TxFailedErr\<close> on a batch, an I/O failure is a \<open>Fault (Failure m)\<close>),
  and \<open>Deleted k\<close> lets a concurrent client remove key \<open>k\<close> just before the
  command runs. An empty script means no disturbance. The field \<open>issued\<close> records
  every round trip by the client call that caused it, a batch as one entry.
\<close>

datatype rvalue = IntVal int | RawVal string

datatype cmd =
    PING
  | WATCH key
  | UNWATCH
  | SETNX key int duration
  | EXPIRE key duration
  | INCRBY key int
  | PTTL key
  | GET key

datatype event = Normal | Fault error | Deleted key

record redis =
  entries :: "key \<Rightarrow> (rvalue \<times> duration option) option"
  watched :: "key list"
  dirty :: bool
  ping_reply :: string
  script :: "event list"
  issued :: "cmd list list"

definition MinInt64 :: int where
  "MinInt64 = - (2 ^ 63)"

definition MaxInt64 :: int where
  "MaxInt64 = 2 ^ 63 - 1"

text \<open>A write to a watched key marks the open transaction as conflicting.\<close>

definition touch :: "key \<Rightarrow> redis \<Rightarrow> redis" where
  "touch k s = s\<lparr>dirty := (dirty s \<or> k \<in> set (watched s))\<rparr>"

definition delete_key :: "key \<Rightarrow> redis \<Rightarrow> redis" where
  "delete_key k s = touch k (s\<lparr>entries := (entries s)(k := None)\<rparr>)"

definition unwatch :: "redis \<Rightarrow> redis" where
  "unwatch s = s\<lparr>watched := [], dirty := False\<rparr>"

definition round_trip :: "cmd list \<Rightarrow> redis \<Rightarrow> error option \<times> redis" where
  "round_trip cs s =
     (let s' = s\<lparr>script := tl (script s), issued := issued s @ [cs]\<rparr> in
      case script s of
        [] \<Rightarrow> (None, s')
      | Normal # _ \<Rightarrow> (None, s')
      | Fault e # _ \<Rightarrow> (Some e, s')
      | Deleted k # _ \<Rightarrow> (None, delete_key k s'))"

text \<open>
  The single commands. A reply is the pair of Go's \<^verbatim>\<open>Result()\<close>: the value (the zero
  value on failure) and the error, \<open>None\<close> for \<^verbatim>\<open>nil\<close>.

  \<open>incrby\<close>: adds to the integer at the key, creating it (without time-to-live) when
  absent; fails on a value that is not integer-shaped and on 64-bit overflow.
  \<open>pttl\<close>: the remaining time-to-live, or the sentinel \<open>-2\<close> milliseconds for an absent
  key and \<open>-1\<close> millisecond for a key without expiration. A key in its last instant
  still exists and has the time-to-live 0.
  \<open>get\<close>: the value, or \<open>RedisNil\<close> for an absent key.
\<close>

definition incrby :: "key \<Rightarrow> int \<Rightarrow> redis \<Rightarrow> (int \<times> error option) \<times> redis" where
  "incrby k n s =
     (case entries s k of
        None \<Rightarrow> ((n, None), s\<lparr>entries := (entries s)(k \<mapsto> (IntVal n, None))\<rparr>)
      | Some (RawVal r, t) \<Rightarrow>
          ((0, Some (Failure ''ERR value is not an integer or out of range'')), s)
      | Some (IntVal m, t) \<Rightarrow>
          if m + n < MinInt64 \<or> MaxInt64 < m + n
          then ((0, Some (Failure ''ERR increment or decrement would overflow'')), s)
          else ((m + n, None), s\<lparr>entries := (entries s)(k \<mapsto> (IntVal (m + n), t))\<rparr>))"

definition pttl :: "key \<Rightarrow> redis \<Rightarrow> duration" where
  "pttl k s =
     (case entries s k of
        None \<Rightarrow> - 2 * Millisecond
      | Some (v, None) \<Rightarrow> - 1 * Millisecond
      | Some (v, Some t) \<Rightarrow> t)"

definition get :: "key \<Rightarrow> redis \<Rightarrow> rvalue \<times> error option" where
  "get k s =
     (case entries s k of
        None \<Rightarrow> (RawVal [], Some RedisNil)
      | Some (v, t) \<Rightarrow> (v, None))"

text \<open>\<^verbatim>\<open>StringCmd.Int64()\<close>: the command's error if it has one, else the parsed integer.\<close>

definition Int64 :: "rvalue \<times> error option \<Rightarrow> int \<times> error option" where
  "Int64 reply =
     (case reply of
        (v, Some e) \<Rightarrow> (0, Some e)
      | (IntVal n, None) \<Rightarrow> (n, None)
      | (RawVal r, None) \<Rightarrow> (0, Some (Failure ''strconv.ParseInt: invalid syntax'')))"

text \<open>
  Go's integer division and remainder by a positive divisor (the quotient is cut off
  towards zero), and the way the client turns a duration into the number it sends:
  whole milliseconds when the duration is under a second or not a whole number of
  seconds, whole seconds otherwise.
\<close>

definition quo :: "int \<Rightarrow> int \<Rightarrow> int" where
  "quo a b = (if a < 0 then - ((- a) div b) else a div b)"

definition remainder :: "int \<Rightarrow> int \<Rightarrow> int" where
  "remainder a b = a - b * quo a b"

definition usePrecise :: "duration \<Rightarrow> bool" where
  "usePrecise dur = (dur < Second \<or> remainder dur Second \<noteq> 0)"

definition formatMs :: "duration \<Rightarrow> int" where
  "formatMs dur = quo dur Millisecond"

definition formatSec :: "duration \<Rightarrow> int" where
  "formatSec dur = quo dur Second"

text \<open>
  \<^verbatim>\<open>rtx.SetNX(key, val, expiration)\<close>: sets the key only when it is absent. With a
  zero expiration the client sends the plain conditional set and the key gets no
  time-to-live. Otherwise it sends the expiration in whole milliseconds or seconds;
  the store rejects a time-to-live that is not positive, and it does so before it
  looks at the key.
\<close>

definition SetNX :: "key \<Rightarrow> int \<Rightarrow> duration \<Rightarrow> redis \<Rightarrow> (bool \<times> error option) \<times> redis" where
  "SetNX k v T s =
     (case round_trip [SETNX k v T] s of
        (Some e, s1) \<Rightarrow> ((False, Some e), s1)
      | (None, s1) \<Rightarrow>
          if T = 0 then
            (if entries s1 k = None
             then ((True, None), touch k (s1\<lparr>entries := (entries s1)(k \<mapsto> (IntVal v, None))\<rparr>))
             else ((False, None), s1))
          else
            (let ttl = (if usePrecise T then formatMs T * Millisecond else formatSec T * Second) in
             if ttl \<le> 0 then ((False, Some (Failure ''ERR invalid expire time in set'')), s1)
             else if entries s1 k = None
             then ((True, None),
                   touch k (s1\<lparr>entries := (entries s1)(k \<mapsto> (IntVal v, Some ttl))\<rparr>))
             else ((False, None), s1)))"

text \<open>
  \<^verbatim>\<open>rtx.Expire(key, expiration)\<close>: the client sends the expiration in whole seconds.
  The store answers whether the key exists; it re-arms the time-to-live of an
  existing key, and removes the key when the number of seconds is not positive.
\<close>

definition Expire :: "key \<Rightarrow> duration \<Rightarrow> redis \<Rightarrow> (bool \<times> error option) \<times> redis" where
  "Expire k T s =
     (case round_trip [EXPIRE k T] s of
        (Some e, s1) \<Rightarrow> ((False, Some e), s1)
      | (None, s1) \<Rightarrow>
          (case entries s1 k of
             None \<Rightarrow> ((False, None), s1)
           | Some (v, t) \<Rightarrow>
               if formatSec T \<le> 0 then ((True, None), delete_key k s1)
               else ((True, None),
                     touch k (s1\<lparr>entries := (entries s1)(k \<mapsto> (v, Some (formatSec T * Second)))\<rparr>))))"

text \<open>
  The two batches the driver sends through \<^verbatim>\<open>rtx.Pipeline()\<close>. A batch runs as one
  round trip: it is aborted with \<open>TxFailedErr\<close> when a watched key was written since
  the watch began, otherwise its commands run together. \<^verbatim>\<open>Exec\<close> reports the first
  error among the commands' replies, and ends the watch. The result is the error of
  \<^verbatim>\<open>Exec\<close> and the replies of the two commands.
\<close>

definition Exec_IncrBy_PTTL ::
  "key \<Rightarrow> int \<Rightarrow> redis \<Rightarrow> (error option \<times> (int \<times> error option) \<times> (duration \<times> error option)) \<times> redis" where
  "Exec_IncrBy_PTTL k n s =
     (case round_trip [INCRBY k n, PTTL k] s of
        (Some e, s1) \<Rightarrow> ((Some e, (0, Some e), (0, Some e)), s1)
      | (None, s1) \<Rightarrow>
          if dirty s1
          then ((Some TxFailedErr, (0, Some TxFailedErr), (0, Some TxFailedErr)), unwatch s1)
          else (case incrby k n s1 of
                  (value, s2) \<Rightarrow> ((snd value, value, (pttl k s2, None)), unwatch s2)))"

definition Exec_Get_PTTL ::
  "key \<Rightarrow> redis \<Rightarrow> (error option \<times> (rvalue \<times> error option) \<times> (duration \<times> error option)) \<times> redis" where
  "Exec_Get_PTTL k s =
     (case round_trip [GET k, PTTL k] s of
        (Some e, s1) \<Rightarrow> ((Some e, (RawVal [], Some e), (0, Some e)), s1)
      | (None, s1) \<Rightarrow>
          if dirty s1
          then ((Some TxFailedErr, (RawVal [], Some TxFailedErr), (0, Some TxFailedErr)), unwatch s1)
          else ((snd (get k s1), get k s1, (pttl k s1, None)), unwatch s1))"

definition Ping :: "redis \<Rightarrow> (string \<times> error option) \<times> redis" where
  "Ping s =
     (case round_trip [PING] s of
        (Some e, s1) \<Rightarrow> (([], Some e), s1)
      | (None, s1) \<Rightarrow> ((ping_reply s1, None), s1))"

text \<open>
  \<^verbatim>\<open>client.Watch(handler, key)\<close>: opens a fresh transaction that watches the key,
  runs the handler on it, releases it (the error of the release is dropped) and
  returns the handler's error. The handler of the driver assigns the captured
  variable \<^verbatim>\<open>lctx\<close>; here it returns the new value of that variable beside its error.
\<close>

definition Close :: "redis \<Rightarrow> redis" where
  "Close s = unwatch (snd (round_trip [UNWATCH] s))"

definition Watch ::
  "(redis \<Rightarrow> ('a \<times> error option) \<times> redis) \<Rightarrow> 'a \<Rightarrow> key \<Rightarrow> redis \<Rightarrow> ('a \<times> error option) \<times> redis" where
  "Watch handler lctx k s =
     (case round_trip [WATCH k] s of
        (Some e, s1) \<Rightarrow> ((lctx, Some e), Close s1)
      | (None, s1) \<Rightarrow>
          (case handler (s1\<lparr>watched := [k], dirty := False\<rparr>) of
             (r, s2) \<Rightarrow> (r, Close s2)))"

section \<open>The driver\<close>

record Store =
  Prefix :: string
  MaxRetry :: int

record StoreOptions =
  options_Prefix :: string
  options_MaxRetry :: int
  options_CleanUpInterval :: duration

text \<open>\<^verbatim>\<open>ping\<close>: the liveness probe; answers whether the reply was the acknowledgment.\<close>

definition ping :: "redis \<Rightarrow> (bool \<times> error option) \<times> redis" where
  "ping s =
     (case Ping s of
        ((pong, err), s1) \<Rightarrow>
          (case err of
             Some e \<Rightarrow> ((False, Some (Wrap e ''limiter: cannot ping redis server'')), s1)
           | None \<Rightarrow> ((pong = ''PONG'', None), s1)))"

text \<open>
  \<^verbatim>\<open>NewStoreWithOptions\<close>: builds the store, replaces a non-positive attempt budget by
  1 and pings. Only the error of the ping is inspected.
\<close>

definition NewStoreWithOptions :: "StoreOptions \<Rightarrow> redis \<Rightarrow> (error + Store) \<times> redis" where
  "NewStoreWithOptions options s =
     (let store = \<lparr>Prefix = options_Prefix options, MaxRetry = options_MaxRetry options\<rparr>;
          store = (if MaxRetry store \<le> 0 then store\<lparr>MaxRetry := 1\<rparr> else store)
      in case ping s of
           ((alive, err), s1) \<Rightarrow>
             (case err of
                Some e \<Rightarrow> (Inl e, s1)
              | None \<Rightarrow> (Inr store, s1)))"

text \<open>
  \<^verbatim>\<open>NewStore\<close>: the store with defaults. The constants \<^verbatim>\<open>limiter.DefaultPrefix\<close> and
  \<^verbatim>\<open>limiter.DefaultCleanUpInterval\<close> are declared outside the source file and are
  arguments here; the attempt budget is not set, so it has Go's zero value.
\<close>

definition NewStore :: "string \<Rightarrow> duration \<Rightarrow> redis \<Rightarrow> (error + Store) \<times> redis" where
  "NewStore DefaultPrefix DefaultCleanUpInterval s =
     NewStoreWithOptions
       \<lparr>options_Prefix = DefaultPrefix, options_MaxRetry = 0,
        options_CleanUpInterval = DefaultCleanUpInterval\<rparr> s"

text \<open>\<^verbatim>\<open>setValue\<close>: tries to initialise the counter when the key does not exist.\<close>

definition setValue :: "key \<Rightarrow> duration \<Rightarrow> int \<Rightarrow> redis \<Rightarrow> (bool \<times> error option) \<times> redis" where
  "setValue k expiration' val s =
     (case SetNX k val expiration' s of
        ((created, err), s1) \<Rightarrow>
          (case err of
             Some e \<Rightarrow> ((False, Some e), s1)
           | None \<Rightarrow> ((created, None), s1)))"

text \<open>
  \<^verbatim>\<open>doSetValue\<close>: the loop \<^verbatim>\<open>for i := 0; i < store.MaxRetry; i++\<close> around
  \<^verbatim>\<open>setValue\<close>; \<open>doSetValue_loop i\<close> is the loop from counter value \<open>i\<close> on.
\<close>

function doSetValue_loop ::
  "int \<Rightarrow> Store \<Rightarrow> key \<Rightarrow> duration \<Rightarrow> int \<Rightarrow> redis \<Rightarrow> (bool \<times> error option) \<times> redis" where
  "doSetValue_loop i store k expiration' val s =
     (if i < MaxRetry store then
        (case setValue k expiration' val s of
           ((created, err), s1) \<Rightarrow>
             if err = None then ((created, None), s1)
             else doSetValue_loop (i + 1) store k expiration' val s1)
      else ((False, Some (ErrorsNew ''retry limit exceeded'')), s))"
  by pat_completeness auto
termination
  by (relation "measure (\<lambda>(i, store, k, expiration', val, s). nat (MaxRetry store - i))") auto

definition doSetValue ::
  "Store \<Rightarrow> key \<Rightarrow> duration \<Rightarrow> int \<Rightarrow> redis \<Rightarrow> (bool \<times> error option) \<times> redis" where
  "doSetValue store k expiration' val s = doSetValue_loop 0 store k expiration' val s"

text \<open>\<^verbatim>\<open>peekValue\<close>: reads the counter and its time-to-live in one batch.\<close>

definition peekValue :: "key \<Rightarrow> redis \<Rightarrow> (int \<times> duration \<times> error option) \<times> redis" where
  "peekValue k s =
     (case Exec_Get_PTTL k s of
        ((err, value, expire), s1) \<Rightarrow>
          if err \<noteq> None \<and> err \<noteq> Some RedisNil then ((0, 0, err), s1)
          else (case Int64 value of
                  (count', err) \<Rightarrow>
                    if err \<noteq> None \<and> err \<noteq> Some RedisNil then ((0, 0, err), s1)
                    else (case expire of
                            (ttl, err) \<Rightarrow>
                              if err \<noteq> None then ((0, 0, err), s1)
                              else ((count', ttl, None), s1))))"

function doPeekValue_loop ::
  "int \<Rightarrow> Store \<Rightarrow> key \<Rightarrow> redis \<Rightarrow> (int \<times> duration \<times> error option) \<times> redis" where
  "doPeekValue_loop i store k s =
     (if i < MaxRetry store then
        (case peekValue k s of
           ((count', ttl, err), s1) \<Rightarrow>
             if err = None then ((count', ttl, None), s1)
             else doPeekValue_loop (i + 1) store k s1)
      else ((0, 0, Some (ErrorsNew ''retry limit exceeded'')), s))"
  by pat_completeness auto
termination
  by (relation "measure (\<lambda>(i, store, k, s). nat (MaxRetry store - i))") auto

definition doPeekValue ::
  "Store \<Rightarrow> key \<Rightarrow> redis \<Rightarrow> (int \<times> duration \<times> error option) \<times> redis" where
  "doPeekValue store k s = doPeekValue_loop 0 store k s"

text \<open>
  \<^verbatim>\<open>updateValue\<close>: increments the counter and reads its time-to-live in one batch;
  when the time-to-live is negative it sets the expiration of the key.
\<close>

definition updateValue ::
  "key \<Rightarrow> duration \<Rightarrow> int \<Rightarrow> redis \<Rightarrow> (int \<times> duration \<times> error option) \<times> redis" where
  "updateValue k expiration' val s =
     (case Exec_IncrBy_PTTL k val s of
        ((err, value, expire), s1) \<Rightarrow>
          if err \<noteq> None then ((0, 0, err), s1)
          else (case value of
                  (count', err) \<Rightarrow>
                    if err \<noteq> None then ((0, 0, err), s1)
                    else (case expire of
                            (ttl, err) \<Rightarrow>
                              if err \<noteq> None then ((0, 0, err), s1)
                              else if ttl < 0 then
                                (case Expire k expiration' s1 of
                                   ((ok, err), s2) \<Rightarrow>
                                     if err \<noteq> None then ((count', ttl, err), s2)
                                     else if \<not> ok
                                     then ((count', ttl,
                                            Some (ErrorsNew ''cannot configure timeout on key'')), s2)
                                     else ((count', ttl, None), s2))
                              else ((count', ttl, None), s1))))"

function doUpdateValue_loop ::
  "int \<Rightarrow> Store \<Rightarrow> key \<Rightarrow> duration \<Rightarrow> int \<Rightarrow> redis \<Rightarrow> (int \<times> duration \<times> error option) \<times> redis" where
  "doUpdateValue_loop i store k expiration' val s =
     (if i < MaxRetry store then
        (case updateValue k expiration' val s of
           ((count', ttl, err), s1) \<Rightarrow>
             if err = None then ((count', ttl, None), s1)
             else if ttl < 0 then ((0, 0, err), s1)
             else doUpdateValue_loop (i + 1) store k expiration' val s1)
      else ((0, 0, Some (ErrorsNew ''retry limit exceeded'')), s))"
  by pat_completeness auto
termination
  by (relation "measure (\<lambda>(i, store, k, expiration', val, s). nat (MaxRetry store - i))") auto

definition doUpdateValue ::
  "Store \<Rightarrow> key \<Rightarrow> duration \<Rightarrow> int \<Rightarrow> redis \<Rightarrow> (int \<times> duration \<times> error option) \<times> redis" where
  "doUpdateValue store k expiration' val s = doUpdateValue_loop 0 store k expiration' val s"

text \<open>
  \<^verbatim>\<open>GetVal\<close>: the namespaced key is \<^verbatim>\<open>Sprintf("%s:%s", store.Prefix, key)\<close>. The
  handler \<open>GetVal_onWatch\<close> is the closure \<^verbatim>\<open>onWatch\<close>; on failure it leaves
  \<^verbatim>\<open>lctx\<close> as it was. The pair \<^verbatim>\<open>(limiter.Context{}, err)\<close> of a failed call is
  \<open>Inl err\<close>, the pair \<^verbatim>\<open>(lctx, nil)\<close> of a successful one is \<open>Inr lctx\<close>.
\<close>

definition namespaced :: "Store \<Rightarrow> key \<Rightarrow> key" where
  "namespaced store k = Prefix store @ '':'' @ k"

definition GetVal_onWatch ::
  "Store \<Rightarrow> time \<Rightarrow> key \<Rightarrow> Rate \<Rightarrow> int \<Rightarrow> CounterState \<Rightarrow> redis \<Rightarrow> (CounterState \<times> error option) \<times> redis" where
  "GetVal_onWatch store now k rate val lctx s =
     (case doSetValue store k (Period rate) val s of
        ((created, err), s1) \<Rightarrow>
          if err \<noteq> None then ((lctx, err), s1)
          else if created
          then ((GetContextFromState now rate (Add now (Period rate)) val, None), s1)
          else (case doUpdateValue store k (Period rate) val s1 of
                  ((count', ttl, err), s2) \<Rightarrow>
                    if err \<noteq> None then ((lctx, err), s2)
                    else ((GetContextFromState now rate
                             (if ttl > 0 then Add now ttl else Add now (Period rate)) count', None), s2)))"

definition GetVal ::
  "Store \<Rightarrow> time \<Rightarrow> key \<Rightarrow> Rate \<Rightarrow> int \<Rightarrow> redis \<Rightarrow> (error + CounterState) \<times> redis" where
  "GetVal store now key0 rate val s =
     (let k = namespaced store key0 in
      case Watch (GetVal_onWatch store now k rate val empty_Context) empty_Context k s of
        ((lctx, err), s1) \<Rightarrow>
          (case err of
             Some e \<Rightarrow> (Inl (Wrap e (''limiter: cannot get value for '' @ k)), s1)
           | None \<Rightarrow> (Inr lctx, s1)))"

definition Get :: "Store \<Rightarrow> time \<Rightarrow> key \<Rightarrow> Rate \<Rightarrow> redis \<Rightarrow> (error + CounterState) \<times> redis" where
  "Get store now key0 rate s = GetVal store now key0 rate 1 s"

definition Peek_onWatch ::
  "Store \<Rightarrow> time \<Rightarrow> key \<Rightarrow> Rate \<Rightarrow> CounterState \<Rightarrow> redis \<Rightarrow> (CounterState \<times> error option) \<times> redis" where
  "Peek_onWatch store now k rate lctx s =
     (case doPeekValue store k s of
        ((count', ttl, err), s1) \<Rightarrow>
          if err \<noteq> None then ((lctx, err), s1)
          else ((GetContextFromState now rate
                   (if ttl > 0 then Add now ttl else Add now (Period rate)) count', None), s1))"

definition Peek :: "Store \<Rightarrow> time \<Rightarrow> key \<Rightarrow> Rate \<Rightarrow> redis \<Rightarrow> (error + CounterState) \<times> redis" where
  "Peek store now key0 rate s =
     (let k = namespaced store key0 in
      case Watch (Peek_onWatch store now k rate empty_Context) empty_Context k s of
        ((lctx, err), s1) \<Rightarrow>
          (case err of
             Some e \<Rightarrow> (Inl (Wrap e (''limiter: cannot peek value for '' @ k)), s1)
           | None \<Rightarrow> (Inr lctx, s1)))"

section \<open>Failing attempts and sample values\<close>

text \<open>
  The next \<open>n\<close> attempts of a loop fail, whatever their errors and whatever makes
  them fail. For the increment the attempts meant are those that fail with a
  time-to-live that is not negative: the batch failed, not the repair step.
\<close>

fun setValue_fails :: "nat \<Rightarrow> key \<Rightarrow> duration \<Rightarrow> int \<Rightarrow> redis \<Rightarrow> bool" where
  "setValue_fails 0 k T v s = True"
| "setValue_fails (Suc n) k T v s =
     (snd (fst (setValue k T v s)) \<noteq> None \<and> setValue_fails n k T v (snd (setValue k T v s)))"

fun peekValue_fails :: "nat \<Rightarrow> key \<Rightarrow> redis \<Rightarrow> bool" where
  "peekValue_fails 0 k s = True"
| "peekValue_fails (Suc n) k s =
     (snd (snd (fst (peekValue k s))) \<noteq> None \<and> peekValue_fails n k (snd (peekValue k s)))"

fun updateValue_fails :: "nat \<Rightarrow> key \<Rightarrow> duration \<Rightarrow> int \<Rightarrow> redis \<Rightarrow> bool" where
  "updateValue_fails 0 k T v s = True"
| "updateValue_fails (Suc n) k T v s =
     (snd (snd (fst (updateValue k T v s))) \<noteq> None \<and>
      0 \<le> fst (snd (fst (updateValue k T v s))) \<and>
      updateValue_fails n k T v (snd (updateValue k T v s)))"

text \<open>
  Sample values for the concrete instances below: a store with the prefix
  \<open>limiter\<close> and an attempt budget of 3, the options that build it, a rate of ten
  requests per second, and a backing store with given entries and script on which no
  transaction is open and nothing has been issued yet.
\<close>

definition example_store :: Store where
  "example_store = \<lparr>Prefix = ''limiter'', MaxRetry = 3\<rparr>"

definition example_options :: StoreOptions where
  "example_options =
     \<lparr>options_Prefix = ''limiter'', options_MaxRetry = 3, options_CleanUpInterval = 0\<rparr>"

definition example_rate :: Rate where
  "example_rate = \<lparr>Formatted = ''10-S'', Period = Second, Limit = 10\<rparr>"

definition idle_redis ::
  "(key \<Rightarrow> (rvalue \<times> duration option) option) \<Rightarrow> event list \<Rightarrow> redis" where
  "idle_redis m evs =
     \<lparr>entries = m, watched = [], dirty = False, ping_reply = ''PONG'', script = evs,
      issued = []\<rparr>"

section \<open>Facts about the backing store and the loops\<close>

declare doSetValue_loop.simps [simp del]
declare doPeekValue_loop.simps [simp del]
declare doUpdateValue_loop.simps [simp del]

subsection \<open>Round trips\<close>

text \<open>Every round trip is recorded and consumes one event of the script.\<close>

lemma round_trip_issued: "issued (snd (round_trip cs s)) = issued s @ [cs]"
  by (simp add: round_trip_def Let_def delete_key_def touch_def split: list.splits event.splits)

lemma round_trip_quiet:
  "script s = [] \<Longrightarrow> round_trip cs s = (None, s\<lparr>script := [], issued := issued s @ [cs]\<rparr>)"
  by (simp add: round_trip_def)

lemma round_trip_entries:
  assumes "round_trip cs s = (r, s1)"
  shows "entries s1 k = None \<or> entries s1 k = entries s k"
  using assms
  by (auto simp add: round_trip_def Let_def delete_key_def touch_def split: list.splits event.splits)

lemma round_trip_unwatched:
  assumes "round_trip cs s = (r, s1)" "watched s = []" "\<not> dirty s"
  shows "watched s1 = [] \<and> \<not> dirty s1"
  using assms
  by (auto simp add: round_trip_def Let_def delete_key_def touch_def split: list.splits event.splits)

subsection \<open>What one attempt issues\<close>

lemma setValue_issued: "issued (snd (setValue k T v s)) = issued s @ [[SETNX k v T]]"
  using round_trip_issued [of "[SETNX k v T]" s]
  by (auto simp add: setValue_def SetNX_def Let_def touch_def split: prod.splits option.splits if_splits)

lemma peekValue_issued: "issued (snd (peekValue k s)) = issued s @ [[GET k, PTTL k]]"
  using round_trip_issued [of "[GET k, PTTL k]" s]
  by (auto simp add: peekValue_def Exec_Get_PTTL_def unwatch_def split: prod.splits option.splits if_splits)

lemma Expire_issued: "issued (snd (Expire k T s)) = issued s @ [[EXPIRE k T]]"
  using round_trip_issued [of "[EXPIRE k T]" s]
  by (auto simp add: Expire_def touch_def delete_key_def split: prod.splits option.splits if_splits)

lemma Exec_IncrBy_PTTL_issued:
  "issued (snd (Exec_IncrBy_PTTL k v s)) = issued s @ [[INCRBY k v, PTTL k]]"
  using round_trip_issued [of "[INCRBY k v, PTTL k]" s]
  by (auto simp add: Exec_IncrBy_PTTL_def incrby_def unwatch_def
      split: prod.splits option.splits if_splits rvalue.splits)

text \<open>
  A failed increment attempt either failed in its batch, and then reports the zero
  count and time-to-live, or failed in the repair step, and then reports the negative
  time-to-live it had read.
\<close>

lemma updateValue_failed_cases:
  assumes "updateValue k T v s = ((c, ttl, Some e), s1)"
  shows "(c = 0 \<and> ttl = 0 \<and> issued s1 = issued s @ [[INCRBY k v, PTTL k]]) \<or>
         (ttl < 0 \<and> issued s1 = issued s @ [[INCRBY k v, PTTL k], [EXPIRE k T]])"
proof -
  obtain err val expire s0 where ex: "Exec_IncrBy_PTTL k v s = ((err, val, expire), s0)"
    by (metis prod.exhaust)
  have i0: "issued s0 = issued s @ [[INCRBY k v, PTTL k]]"
    using Exec_IncrBy_PTTL_issued [of k v s] ex by simp
  obtain ok err2 s2 where xp: "Expire k T s0 = ((ok, err2), s2)"
    by (metis prod.exhaust)
  have i2: "issued s2 = issued s0 @ [[EXPIRE k T]]"
    using Expire_issued [of k T s0] xp by simp
  show ?thesis
    using assms ex xp i0 i2
    by (auto simp add: updateValue_def split: prod.splits if_splits)
qed

subsection \<open>What a successful batch and a successful repair leave in the store\<close>

lemma Exec_IncrBy_PTTL_success:
  assumes "Exec_IncrBy_PTTL k v s = ((None, (c, None), (ttl, None)), s1)"
  shows "(\<exists>t. entries s1 k = Some (IntVal c, t)) \<and> watched s1 = [] \<and> \<not> dirty s1"
proof -
  obtain r s0 where rt: "round_trip [INCRBY k v, PTTL k] s = (r, s0)"
    by (metis prod.exhaust)
  show ?thesis
    using assms rt
    by (auto simp add: Exec_IncrBy_PTTL_def incrby_def unwatch_def
        split: option.splits if_splits prod.splits rvalue.splits)
qed

lemma Expire_success:
  assumes "Expire k T s = ((True, None), s1)" "0 < formatSec T" "entries s k = Some (x, t)"
    "watched s = []" "\<not> dirty s"
  shows "entries s1 k = Some (x, Some (formatSec T * Second)) \<and> watched s1 = [] \<and> \<not> dirty s1"
proof -
  obtain r s0 where rt: "round_trip [EXPIRE k T] s = (r, s0)"
    by (metis prod.exhaust)
  show ?thesis
    using assms rt round_trip_entries [OF rt, of k] round_trip_unwatched [OF rt]
    by (auto simp add: Expire_def touch_def split: option.splits if_splits prod.splits)
qed

subsection \<open>The only ways a loop fails\<close>

lemma doSetValue_loop_fails:
  "snd (fst (doSetValue_loop i store k T v s)) = Some e \<Longrightarrow>
   e = RetryExhausted \<and>
   issued (snd (doSetValue_loop i store k T v s)) =
     issued s @ replicate (nat (MaxRetry store - i)) [SETNX k v T]"
proof (induction i store k T v s rule: doSetValue_loop.induct)
  case (1 i store k T v s)
  show ?case
  proof (cases "i < MaxRetry store")
    case False
    then show ?thesis
      using "1.prems" by (simp add: doSetValue_loop.simps [of i] RetryExhausted_def)
  next
    case True
    obtain created err s1 where sv: "setValue k T v s = ((created, err), s1)"
      by (metis prod.exhaust)
    show ?thesis
    proof (cases err)
      case None
      then show ?thesis
        using "1.prems" True sv by (simp add: doSetValue_loop.simps [of i])
    next
      case (Some e')
      have step: "doSetValue_loop i store k T v s = doSetValue_loop (i + 1) store k T v s1"
        using True sv Some by (simp add: doSetValue_loop.simps [of i])
      have iss: "issued s1 = issued s @ [[SETNX k v T]]"
        using setValue_issued [of k T v s] sv by simp
      have n: "nat (MaxRetry store - i) = Suc (nat (MaxRetry store - (i + 1)))"
        using True by simp
      have "e = RetryExhausted \<and>
            issued (snd (doSetValue_loop (i + 1) store k T v s1)) =
              issued s1 @ replicate (nat (MaxRetry store - (i + 1))) [SETNX k v T]"
        using "1.IH" [OF True sv [symmetric] refl] Some "1.prems" step by simp
      then show ?thesis
        using step iss n by simp
    qed
  qed
qed

lemma doPeekValue_loop_fails:
  "snd (snd (fst (doPeekValue_loop i store k s))) = Some e \<Longrightarrow>
   e = RetryExhausted \<and>
   issued (snd (doPeekValue_loop i store k s)) =
     issued s @ replicate (nat (MaxRetry store - i)) [GET k, PTTL k]"
proof (induction i store k s rule: doPeekValue_loop.induct)
  case (1 i store k s)
  show ?case
  proof (cases "i < MaxRetry store")
    case False
    then show ?thesis
      using "1.prems" by (simp add: doPeekValue_loop.simps [of i] RetryExhausted_def)
  next
    case True
    obtain c ttl err s1 where pv: "peekValue k s = ((c, ttl, err), s1)"
      by (metis prod.exhaust)
    show ?thesis
    proof (cases err)
      case None
      then show ?thesis
        using "1.prems" True pv by (simp add: doPeekValue_loop.simps [of i])
    next
      case (Some e')
      have step: "doPeekValue_loop i store k s = doPeekValue_loop (i + 1) store k s1"
        using True pv Some by (simp add: doPeekValue_loop.simps [of i])
      have iss: "issued s1 = issued s @ [[GET k, PTTL k]]"
        using peekValue_issued [of k s] pv by simp
      have n: "nat (MaxRetry store - i) = Suc (nat (MaxRetry store - (i + 1)))"
        using True by simp
      have "e = RetryExhausted \<and>
            issued (snd (doPeekValue_loop (i + 1) store k s1)) =
              issued s1 @ replicate (nat (MaxRetry store - (i + 1))) [GET k, PTTL k]"
        using "1.IH" [OF True pv [symmetric] refl refl] Some "1.prems" step by simp
      then show ?thesis
        using step iss n by simp
    qed
  qed
qed

lemma doUpdateValue_loop_fails:
  "snd (snd (fst (doUpdateValue_loop i store k T v s))) = Some e \<Longrightarrow>
   (e = RetryExhausted \<and>
    issued (snd (doUpdateValue_loop i store k T v s)) =
      issued s @ replicate (nat (MaxRetry store - i)) [INCRBY k v, PTTL k]) \<or>
   last (issued (snd (doUpdateValue_loop i store k T v s))) = [EXPIRE k T]"
proof (induction i store k T v s rule: doUpdateValue_loop.induct)
  case (1 i store k T v s)
  show ?case
  proof (cases "i < MaxRetry store")
    case False
    then show ?thesis
      using "1.prems" by (simp add: doUpdateValue_loop.simps [of i] RetryExhausted_def)
  next
    case True
    obtain c ttl err s1 where uv: "updateValue k T v s = ((c, ttl, err), s1)"
      by (metis prod.exhaust)
    show ?thesis
    proof (cases err)
      case None
      then show ?thesis
        using "1.prems" True uv by (simp add: doUpdateValue_loop.simps [of i])
    next
      case (Some e')
      note failed = updateValue_failed_cases [OF uv [unfolded Some]]
      show ?thesis
      proof (cases "ttl < 0")
        case True
        then have "doUpdateValue_loop i store k T v s = ((0, 0, Some e'), s1)"
          using \<open>i < MaxRetry store\<close> uv Some by (simp add: doUpdateValue_loop.simps [of i])
        moreover have "issued s1 = issued s @ [[INCRBY k v, PTTL k], [EXPIRE k T]]"
          using failed True by auto
        ultimately show ?thesis by simp
      next
        case False
        have step: "doUpdateValue_loop i store k T v s = doUpdateValue_loop (i + 1) store k T v s1"
          using \<open>i < MaxRetry store\<close> uv Some False by (simp add: doUpdateValue_loop.simps [of i])
        have iss: "issued s1 = issued s @ [[INCRBY k v, PTTL k]]"
          using failed False by auto
        have n: "nat (MaxRetry store - i) = Suc (nat (MaxRetry store - (i + 1)))"
          using \<open>i < MaxRetry store\<close> by simp
        have "(e = RetryExhausted \<and>
              issued (snd (doUpdateValue_loop (i + 1) store k T v s1)) =
                issued s1 @ replicate (nat (MaxRetry store - (i + 1))) [INCRBY k v, PTTL k]) \<or>
              last (issued (snd (doUpdateValue_loop (i + 1) store k T v s1))) = [EXPIRE k T]"
          using "1.IH" [OF \<open>i < MaxRetry store\<close> uv [symmetric] refl refl] Some False "1.prems" step
          by simp
        then show ?thesis
          using step iss n by auto
      qed
    qed
  qed
qed

subsection \<open>The numbers the client sends\<close>

text \<open>
  A window of at least one second is sent by \<^verbatim>\<open>Expire\<close> as a positive number of
  seconds that does not exceed it; a shorter one as a number that is not positive. A
  window of at least one millisecond is sent by \<^verbatim>\<open>SetNX\<close> as that many whole
  milliseconds; any other window except zero is sent as a number that is not positive.
\<close>

lemma formatSec_whole:
  "Second \<le> T \<Longrightarrow> 0 < formatSec T \<and> 0 < formatSec T * Second \<and> formatSec T * Second \<le> T"
  by (simp add: formatSec_def quo_def Second_def Millisecond_def pos_imp_zdiv_pos_iff)

lemma formatSec_below:
  "T < Second \<Longrightarrow> formatSec T \<le> 0"
  by (auto simp add: formatSec_def quo_def Second_def Millisecond_def div_pos_pos_trivial
      intro: div_int_pos_iff [THEN iffD2])

lemma window_in_ms:
  assumes "Millisecond \<le> T"
  shows "(if usePrecise T then formatMs T * Millisecond else formatSec T * Second) =
           formatMs T * Millisecond"
    and "0 < formatMs T * Millisecond" and "formatMs T * Millisecond \<le> T"
    and "T \<noteq> 0"
proof -
  have pos: "0 \<le> T" using assms by (simp add: Millisecond_def)
  show "(if usePrecise T then formatMs T * Millisecond else formatSec T * Second) =
           formatMs T * Millisecond"
    using pos
    by (auto simp add: usePrecise_def remainder_def formatMs_def formatSec_def quo_def
        Second_def Millisecond_def)
  show "0 < formatMs T * Millisecond"
    using assms by (simp add: formatMs_def quo_def Millisecond_def pos_imp_zdiv_pos_iff)
  show "formatMs T * Millisecond \<le> T"
    using pos by (simp add: formatMs_def quo_def Millisecond_def)
  show "T \<noteq> 0" using assms by (simp add: Millisecond_def)
qed

lemma whole_ms_window:
  "0 \<le> T \<Longrightarrow> remainder T Millisecond = 0 \<Longrightarrow> formatMs T * Millisecond = T"
  by (simp add: remainder_def formatMs_def quo_def Millisecond_def)

lemma window_rejected:
  assumes "T \<noteq> 0" "T < Millisecond"
  shows "(if usePrecise T then formatMs T * Millisecond else formatSec T * Second) \<le> 0"
proof -
  have "usePrecise T"
    using assms by (simp add: usePrecise_def Second_def Millisecond_def)
  moreover have "formatMs T \<le> 0"
  proof (cases "T < 0")
    case True
    then have "0 \<le> (- T) div Millisecond"
      by (simp add: Millisecond_def pos_imp_zdiv_nonneg_iff)
    then show ?thesis using True by (simp add: formatMs_def quo_def)
  next
    case False
    then have "T div Millisecond = 0"
      using assms by (simp add: div_pos_pos_trivial)
    then show ?thesis using False by (simp add: formatMs_def quo_def)
  qed
  ultimately show ?thesis
    by (simp add: Millisecond_def mult_le_0_iff)
qed

subsection \<open>A rejected conditional set\<close>

lemma setValue_rejected:
  assumes "script s = []" "T \<noteq> 0" "T < Millisecond"
  shows "setValue k T v s =
     ((False, Some (Failure ''ERR invalid expire time in set'')),
      s\<lparr>script := [], issued := issued s @ [[SETNX k v T]]\<rparr>)"
  using assms window_rejected [OF assms(2,3)]
  by (simp add: setValue_def SetNX_def Let_def round_trip_quiet)

lemma doSetValue_loop_rejected:
  "script s = [] \<Longrightarrow> T \<noteq> 0 \<Longrightarrow> T < Millisecond \<Longrightarrow>
   fst (doSetValue_loop i store k T v s) = (False, Some RetryExhausted) \<and>
   entries (snd (doSetValue_loop i store k T v s)) = entries s \<and>
   script (snd (doSetValue_loop i store k T v s)) = [] \<and>
   issued (snd (doSetValue_loop i store k T v s)) =
     issued s @ replicate (nat (MaxRetry store - i)) [SETNX k v T]"
proof (induction i store k T v s rule: doSetValue_loop.induct)
  case (1 i store k T v s)
  show ?case
  proof (cases "i < MaxRetry store")
    case False
    then show ?thesis
      using "1.prems" by (simp add: doSetValue_loop.simps [of i] RetryExhausted_def)
  next
    case True
    define s1 where "s1 = s\<lparr>script := [], issued := issued s @ [[SETNX k v T]]\<rparr>"
    have sv: "setValue k T v s =
        ((False, Some (Failure ''ERR invalid expire time in set'')), s1)"
      using setValue_rejected [OF "1.prems"] by (simp add: s1_def)
    have step: "doSetValue_loop i store k T v s = doSetValue_loop (i + 1) store k T v s1"
      using True sv by (simp add: doSetValue_loop.simps [of i])
    have n: "nat (MaxRetry store - i) = Suc (nat (MaxRetry store - (i + 1)))"
      using True by simp
    have ih: "fst (doSetValue_loop (i + 1) store k T v s1) = (False, Some RetryExhausted) \<and>
      entries (snd (doSetValue_loop (i + 1) store k T v s1)) = entries s1 \<and>
      script (snd (doSetValue_loop (i + 1) store k T v s1)) = [] \<and>
      issued (snd (doSetValue_loop (i + 1) store k T v s1)) =
        issued s1 @ replicate (nat (MaxRetry store - (i + 1))) [SETNX k v T]"
      using "1.IH" [OF True sv [symmetric] refl] "1.prems" by (simp add: s1_def)
    show ?thesis
      using ih step n by (simp add: s1_def)
  qed
qed

subsection \<open>The created branch and the peek on an absent key\<close>

lemma GetVal_absent_whole:
  assumes "0 < MaxRetry store" and "entries s (namespaced store key0) = None"
    and "script s = []" and "Millisecond \<le> Period rate"
  shows "fst (GetVal store now key0 rate val s) =
           Inr \<lparr>timestamp = now, window = Period rate, count = val, expiration = now + Period rate\<rparr>"
    and "entries (snd (GetVal store now key0 rate val s)) (namespaced store key0) =
           Some (IntVal val, Some (formatMs (Period rate) * Millisecond))"
    and "issued (snd (GetVal store now key0 rate val s)) =
           issued s @ [[WATCH (namespaced store key0)],
                       [SETNX (namespaced store key0) val (Period rate)], [UNWATCH]]"
  using assms window_in_ms [OF assms(4)]
  by (simp_all add: GetVal_def Let_def Watch_def round_trip_quiet GetVal_onWatch_def doSetValue_def
      doSetValue_loop.simps [of 0] setValue_def SetNX_def touch_def Close_def unwatch_def
      GetContextFromState_def Add_def)

lemma GetVal_absent_zero:
  assumes "0 < MaxRetry store" and "entries s (namespaced store key0) = None"
    and "script s = []" and "Period rate = 0"
  shows "fst (GetVal store now key0 rate val s) =
           Inr \<lparr>timestamp = now, window = Period rate, count = val, expiration = now + Period rate\<rparr>"
    and "entries (snd (GetVal store now key0 rate val s)) (namespaced store key0) =
           Some (IntVal val, None)"
    and "issued (snd (GetVal store now key0 rate val s)) =
           issued s @ [[WATCH (namespaced store key0)],
                       [SETNX (namespaced store key0) val (Period rate)], [UNWATCH]]"
  using assms
  by (simp_all add: GetVal_def Let_def Watch_def round_trip_quiet GetVal_onWatch_def doSetValue_def
      doSetValue_loop.simps [of 0] setValue_def SetNX_def touch_def Close_def unwatch_def
      GetContextFromState_def Add_def)

lemma GetVal_absent_rejected:
  assumes "entries s (namespaced store key0) = None"
    and "script s = []" and "Period rate \<noteq> 0" and "Period rate < Millisecond"
  shows "fst (GetVal store now key0 rate val s) =
           Inl (Wrap RetryExhausted (''limiter: cannot get value for '' @ namespaced store key0))"
    and "entries (snd (GetVal store now key0 rate val s)) (namespaced store key0) = None"
proof -
  define s1 where "s1 = s\<lparr>script := [], issued := issued s @ [[WATCH (namespaced store key0)]],
      watched := [namespaced store key0], dirty := False\<rparr>"
  have q: "script s1 = []" by (simp add: s1_def)
  note loop = doSetValue_loop_rejected [OF q assms(3,4), of 0 store "namespaced store key0" val]
  obtain r s2 where d: "doSetValue store (namespaced store key0) (Period rate) val s1 = (r, s2)"
    by (metis prod.exhaust)
  have r: "r = (False, Some RetryExhausted)" and e: "entries s2 = entries s1"
    and sc: "script s2 = []"
    using loop d by (simp_all add: doSetValue_def)
  have g: "GetVal store now key0 rate val s =
      (Inl (Wrap RetryExhausted (''limiter: cannot get value for '' @ namespaced store key0)),
       Close s2)"
    using assms(2) d r
    by (simp add: GetVal_def Let_def Watch_def round_trip_quiet GetVal_onWatch_def s1_def)
  show "fst (GetVal store now key0 rate val s) =
           Inl (Wrap RetryExhausted (''limiter: cannot get value for '' @ namespaced store key0))"
    using g by simp
  show "entries (snd (GetVal store now key0 rate val s)) (namespaced store key0) = None"
    using g e sc assms(1) by (simp add: Close_def unwatch_def round_trip_quiet s1_def)
qed

lemma Peek_absent:
  assumes "0 < MaxRetry store" and "entries s (namespaced store key0) = None"
    and "script s = []"
  shows "fst (Peek store now key0 rate s) =
           Inr \<lparr>timestamp = now, window = Period rate, count = 0, expiration = now + Period rate\<rparr>"
    and "fst (doPeekValue store (namespaced store key0)
                (snd (round_trip [WATCH (namespaced store key0)] s)
                   \<lparr>watched := [namespaced store key0], dirty := False\<rparr>)) =
           (0, - 2 * Millisecond, None)"
    and "entries (snd (Peek store now key0 rate s)) = entries s"
    and "script (snd (Peek store now key0 rate s)) = []"
    and "issued (snd (Peek store now key0 rate s)) =
           issued s @ [[WATCH (namespaced store key0)],
                       [GET (namespaced store key0), PTTL (namespaced store key0)], [UNWATCH]]"
  using assms
  by (simp_all add: Peek_def Let_def Watch_def round_trip_quiet Peek_onWatch_def
      doPeekValue_def doPeekValue_loop.simps [of 0] peekValue_def Exec_Get_PTTL_def get_def
      pttl_def Int64_def Close_def unwatch_def GetContextFromState_def Add_def Millisecond_def)

subsection \<open>The loops when every attempt fails\<close>

lemma doSetValue_loop_exhausts:
  "setValue_fails (nat (MaxRetry store - i)) k T v s \<Longrightarrow>
   fst (doSetValue_loop i store k T v s) = (False, Some RetryExhausted) \<and>
   issued (snd (doSetValue_loop i store k T v s)) =
     issued s @ replicate (nat (MaxRetry store - i)) [SETNX k v T]"
proof (induction i store k T v s rule: doSetValue_loop.induct)
  case (1 i store k T v s)
  show ?case
  proof (cases "i < MaxRetry store")
    case False
    then show ?thesis
      by (simp add: doSetValue_loop.simps [of i] RetryExhausted_def)
  next
    case True
    obtain created err s1 where sv: "setValue k T v s = ((created, err), s1)"
      by (metis prod.exhaust)
    have n: "nat (MaxRetry store - i) = Suc (nat (MaxRetry store - (i + 1)))"
      using True by simp
    have failed: "err \<noteq> None" and rest: "setValue_fails (nat (MaxRetry store - (i + 1))) k T v s1"
      using "1.prems" sv unfolding n by simp_all
    obtain e where e: "err = Some e" using failed by blast
    have step: "doSetValue_loop i store k T v s = doSetValue_loop (i + 1) store k T v s1"
      using True sv e by (simp add: doSetValue_loop.simps [of i])
    have iss: "issued s1 = issued s @ [[SETNX k v T]]"
      using setValue_issued [of k T v s] sv by simp
    show ?thesis
      using "1.IH" [OF True sv [symmetric] refl failed rest] step iss n by simp
  qed
qed

lemma doPeekValue_loop_exhausts:
  "peekValue_fails (nat (MaxRetry store - i)) k s \<Longrightarrow>
   fst (doPeekValue_loop i store k s) = (0, 0, Some RetryExhausted) \<and>
   issued (snd (doPeekValue_loop i store k s)) =
     issued s @ replicate (nat (MaxRetry store - i)) [GET k, PTTL k]"
proof (induction i store k s rule: doPeekValue_loop.induct)
  case (1 i store k s)
  show ?case
  proof (cases "i < MaxRetry store")
    case False
    then show ?thesis
      by (simp add: doPeekValue_loop.simps [of i] RetryExhausted_def)
  next
    case True
    obtain c ttl err s1 where pv: "peekValue k s = ((c, ttl, err), s1)"
      by (metis prod.exhaust)
    have n: "nat (MaxRetry store - i) = Suc (nat (MaxRetry store - (i + 1)))"
      using True by simp
    have failed: "err \<noteq> None" and rest: "peekValue_fails (nat (MaxRetry store - (i + 1))) k s1"
      using "1.prems" pv unfolding n by simp_all
    obtain e where e: "err = Some e" using failed by blast
    have step: "doPeekValue_loop i store k s = doPeekValue_loop (i + 1) store k s1"
      using True pv e by (simp add: doPeekValue_loop.simps [of i])
    have iss: "issued s1 = issued s @ [[GET k, PTTL k]]"
      using peekValue_issued [of k s] pv by simp
    show ?thesis
      using "1.IH" [OF True pv [symmetric] refl refl failed rest] step iss n by simp
  qed
qed

lemma doUpdateValue_loop_exhausts:
  "updateValue_fails (nat (MaxRetry store - i)) k T v s \<Longrightarrow>
   fst (doUpdateValue_loop i store k T v s) = (0, 0, Some RetryExhausted) \<and>
   issued (snd (doUpdateValue_loop i store k T v s)) =
     issued s @ replicate (nat (MaxRetry store - i)) [INCRBY k v, PTTL k]"
proof (induction i store k T v s rule: doUpdateValue_loop.induct)
  case (1 i store k T v s)
  show ?case
  proof (cases "i < MaxRetry store")
    case False
    then show ?thesis
      by (simp add: doUpdateValue_loop.simps [of i] RetryExhausted_def)
  next
    case True
    obtain c ttl err s1 where uv: "updateValue k T v s = ((c, ttl, err), s1)"
      by (metis prod.exhaust)
    have n: "nat (MaxRetry store - i) = Suc (nat (MaxRetry store - (i + 1)))"
      using True by simp
    have failed: "err \<noteq> None" and batch: "\<not> ttl < 0"
      and rest: "updateValue_fails (nat (MaxRetry store - (i + 1))) k T v s1"
      using "1.prems" uv unfolding n by simp_all
    obtain e where e: "err = Some e" using failed by blast
    have step: "doUpdateValue_loop i store k T v s = doUpdateValue_loop (i + 1) store k T v s1"
      using True uv e batch by (simp add: doUpdateValue_loop.simps [of i])
    have iss: "issued s1 = issued s @ [[INCRBY k v, PTTL k]]"
      using updateValue_failed_cases [OF uv [unfolded e]] batch by auto
    show ?thesis
      using "1.IH" [OF True uv [symmetric] refl refl failed batch rest] step iss n by simp
  qed
qed

subsection \<open>No loop makes more attempts than the budget\<close>

lemma doSetValue_loop_bound:
  "length (issued (snd (doSetValue_loop i store k T v s))) \<le>
     length (issued s) + nat (MaxRetry store - i)"
proof (induction i store k T v s rule: doSetValue_loop.induct)
  case (1 i store k T v s)
  show ?case
  proof (cases "i < MaxRetry store")
    case False
    then show ?thesis
      by (simp add: doSetValue_loop.simps [of i])
  next
    case True
    obtain created err s1 where sv: "setValue k T v s = ((created, err), s1)"
      by (metis prod.exhaust)
    have iss: "issued s1 = issued s @ [[SETNX k v T]]"
      using setValue_issued [of k T v s] sv by simp
    show ?thesis
    proof (cases err)
      case None
      then show ?thesis
        using True sv iss by (simp add: doSetValue_loop.simps [of i])
    next
      case (Some e)
      have step: "doSetValue_loop i store k T v s = doSetValue_loop (i + 1) store k T v s1"
        using True sv Some by (simp add: doSetValue_loop.simps [of i])
      show ?thesis
        using "1.IH" [OF True sv [symmetric] refl] Some step iss True by simp
    qed
  qed
qed

lemma doPeekValue_loop_bound:
  "length (issued (snd (doPeekValue_loop i store k s))) \<le>
     length (issued s) + nat (MaxRetry store - i)"
proof (induction i store k s rule: doPeekValue_loop.induct)
  case (1 i store k s)
  show ?case
  proof (cases "i < MaxRetry store")
    case False
    then show ?thesis
      by (simp add: doPeekValue_loop.simps [of i])
  next
    case True
    obtain c ttl err s1 where pv: "peekValue k s = ((c, ttl, err), s1)"
      by (metis prod.exhaust)
    have iss: "issued s1 = issued s @ [[GET k, PTTL k]]"
      using peekValue_issued [of k s] pv by simp
    show ?thesis
    proof (cases err)
      case None
      then show ?thesis
        using True pv iss by (simp add: doPeekValue_loop.simps [of i])
    next
      case (Some e)
      have step: "doPeekValue_loop i store k s = doPeekValue_loop (i + 1) store k s1"
        using True pv Some by (simp add: doPeekValue_loop.simps [of i])
      show ?thesis
        using "1.IH" [OF True pv [symmetric] refl refl] Some step iss True by simp
    qed
  qed
qed

lemma updateValue_issued_cases:
  "issued (snd (updateValue k T v s)) = issued s @ [[INCRBY k v, PTTL k]] \<or>
   issued (snd (updateValue k T v s)) = issued s @ [[INCRBY k v, PTTL k], [EXPIRE k T]]"
proof -
  obtain r s0 where ex: "Exec_IncrBy_PTTL k v s = (r, s0)"
    by (metis prod.exhaust)
  have i0: "issued s0 = issued s @ [[INCRBY k v, PTTL k]]"
    using Exec_IncrBy_PTTL_issued [of k v s] ex by simp
  obtain r2 s2 where xp: "Expire k T s0 = (r2, s2)"
    by (metis prod.exhaust)
  have i2: "issued s2 = issued s0 @ [[EXPIRE k T]]"
    using Expire_issued [of k T s0] xp by simp
  show ?thesis
    using ex xp i0 i2
    by (auto simp add: updateValue_def split: prod.splits if_splits)
qed

lemma doUpdateValue_loop_bound:
  "count_list (issued (snd (doUpdateValue_loop i store k T v s))) [INCRBY k v, PTTL k] \<le>
     count_list (issued s) [INCRBY k v, PTTL k] + nat (MaxRetry store - i)"
proof (induction i store k T v s rule: doUpdateValue_loop.induct)
  case (1 i store k T v s)
  show ?case
  proof (cases "i < MaxRetry store")
    case False
    then show ?thesis
      by (simp add: doUpdateValue_loop.simps [of i])
  next
    case True
    obtain c ttl err s1 where uv: "updateValue k T v s = ((c, ttl, err), s1)"
      by (metis prod.exhaust)
    have iss: "count_list (issued s1) [INCRBY k v, PTTL k] =
        count_list (issued s) [INCRBY k v, PTTL k] + 1"
      using updateValue_issued_cases [of k T v s] uv by auto
    show ?thesis
    proof (cases "err = None \<or> ttl < 0")
      case True
      then have "snd (doUpdateValue_loop i store k T v s) = s1"
        using \<open>i < MaxRetry store\<close> uv by (auto simp add: doUpdateValue_loop.simps [of i])
      then show ?thesis
        using iss \<open>i < MaxRetry store\<close> by simp
    next
      case False
      then obtain e where e: "err = Some e" by (cases err) auto
      have step: "doUpdateValue_loop i store k T v s = doUpdateValue_loop (i + 1) store k T v s1"
        using \<open>i < MaxRetry store\<close> uv False e by (simp add: doUpdateValue_loop.simps [of i])
      show ?thesis
        using "1.IH" [OF \<open>i < MaxRetry store\<close> uv [symmetric] refl refl] False step iss
          \<open>i < MaxRetry store\<close>
        by simp
    qed
  qed
qed

section \<open>Properties\<close>

text \<open>
  C1, as the specification words it (for every window, time-to-live = window), does
  not hold. On an empty store, with a budget of 3 and amount 1: a window of 500
  microseconds is sent as 0 milliseconds and rejected, so the call fails with the
  retry-limit error and the key stays absent; a zero window stores the key without
  expiration; a window of 1.5 milliseconds stores it with 1 millisecond.
\<close>

theorem small_and_zero_windows_break_creation:
  "fst (GetVal example_store 100 ''k'' (example_rate\<lparr>Period := 500000\<rparr>) 1
          (idle_redis Map.empty [])) =
     Inl (Wrap RetryExhausted ''limiter: cannot get value for limiter:k'') \<and>
   entries (snd (GetVal example_store 100 ''k'' (example_rate\<lparr>Period := 500000\<rparr>) 1
          (idle_redis Map.empty []))) ''limiter:k'' = None \<and>
   fst (GetVal example_store 100 ''k'' (example_rate\<lparr>Period := 0\<rparr>) 1
          (idle_redis Map.empty [])) =
     Inr \<lparr>timestamp = 100, window = 0, count = 1, expiration = 100\<rparr> \<and>
   entries (snd (GetVal example_store 100 ''k'' (example_rate\<lparr>Period := 0\<rparr>) 1
          (idle_redis Map.empty []))) ''limiter:k'' = Some (IntVal 1, None) \<and>
   entries (snd (GetVal example_store 100 ''k'' (example_rate\<lparr>Period := 1500000\<rparr>) 1
          (idle_redis Map.empty []))) ''limiter:k'' = Some (IntVal 1, Some Millisecond)"
  by (simp add: GetVal_def namespaced_def GetVal_onWatch_def GetContextFromState_def Add_def
      empty_Context_def Watch_def Close_def unwatch_def round_trip_def Let_def delete_key_def
      touch_def setValue_def doSetValue_def doSetValue_loop.simps SetNX_def usePrecise_def
      formatMs_def formatSec_def quo_def remainder_def RetryExhausted_def
      example_store_def example_rate_def idle_redis_def Second_def Millisecond_def)

text \<open>
  C1 (amended). For every key that is not present in the store, an undisturbed
  \<^verbatim>\<open>GetVal\<close> of a store with a positive attempt budget behaves as follows. With a
  window of at least one millisecond it takes the created branch of create-if-absent:
  it returns a CounterState whose count is the increment amount (1 for \<^verbatim>\<open>Get\<close>) and
  whose expiration is exactly \<open>now\<close> plus the window, it issues the watch, the
  conditional set and the release and no increment, and it leaves the key set to that
  amount with the window cut to whole milliseconds as time-to-live, which is positive,
  at most the window, and the window itself when that is a whole number of
  milliseconds. With a zero window it returns the same and stores the key without
  expiration. With any other window under one millisecond the conditional set is
  rejected on every attempt: the call fails with the retry-limit error and the key
  stays absent.
\<close>

theorem GetVal_creates_absent_key:
  assumes "0 < MaxRetry store" and "entries s (namespaced store key0) = None"
    and "script s = []"
  shows
    "(Millisecond \<le> Period rate \<longrightarrow>
        fst (GetVal store now key0 rate val s) =
          Inr \<lparr>timestamp = now, window = Period rate, count = val,
               expiration = now + Period rate\<rparr> \<and>
        entries (snd (GetVal store now key0 rate val s)) (namespaced store key0) =
          Some (IntVal val, Some (formatMs (Period rate) * Millisecond)) \<and>
        issued (snd (GetVal store now key0 rate val s)) =
          issued s @ [[WATCH (namespaced store key0)],
                      [SETNX (namespaced store key0) val (Period rate)], [UNWATCH]] \<and>
        fst (Get store now key0 rate s) =
          Inr \<lparr>timestamp = now, window = Period rate, count = 1,
               expiration = now + Period rate\<rparr> \<and>
        entries (snd (Get store now key0 rate s)) (namespaced store key0) =
          Some (IntVal 1, Some (formatMs (Period rate) * Millisecond)) \<and>
        issued (snd (Get store now key0 rate s)) =
          issued s @ [[WATCH (namespaced store key0)],
                      [SETNX (namespaced store key0) 1 (Period rate)], [UNWATCH]] \<and>
        0 < formatMs (Period rate) * Millisecond \<and>
        formatMs (Period rate) * Millisecond \<le> Period rate \<and>
        (remainder (Period rate) Millisecond = 0 \<longrightarrow>
           formatMs (Period rate) * Millisecond = Period rate)) \<and>
     (Period rate = 0 \<longrightarrow>
        fst (GetVal store now key0 rate val s) =
          Inr \<lparr>timestamp = now, window = Period rate, count = val,
               expiration = now + Period rate\<rparr> \<and>
        entries (snd (GetVal store now key0 rate val s)) (namespaced store key0) =
          Some (IntVal val, None) \<and>
        fst (Get store now key0 rate s) =
          Inr \<lparr>timestamp = now, window = Period rate, count = 1,
               expiration = now + Period rate\<rparr> \<and>
        entries (snd (Get store now key0 rate s)) (namespaced store key0) =
          Some (IntVal 1, None)) \<and>
     (Period rate \<noteq> 0 \<and> Period rate < Millisecond \<longrightarrow>
        fst (GetVal store now key0 rate val s) =
          Inl (Wrap RetryExhausted (''limiter: cannot get value for '' @ namespaced store key0)) \<and>
        entries (snd (GetVal store now key0 rate val s)) (namespaced store key0) = None \<and>
        fst (Get store now key0 rate s) =
          Inl (Wrap RetryExhausted (''limiter: cannot get value for '' @ namespaced store key0)) \<and>
        entries (snd (Get store now key0 rate s)) (namespaced store key0) = None)"
proof (intro conjI impI)
  assume w: "Millisecond \<le> Period rate"
  note a = GetVal_absent_whole [OF assms w]
  show "fst (GetVal store now key0 rate val s) =
          Inr \<lparr>timestamp = now, window = Period rate, count = val,
               expiration = now + Period rate\<rparr>"
    and "entries (snd (GetVal store now key0 rate val s)) (namespaced store key0) =
          Some (IntVal val, Some (formatMs (Period rate) * Millisecond))"
    and "issued (snd (GetVal store now key0 rate val s)) =
          issued s @ [[WATCH (namespaced store key0)],
                      [SETNX (namespaced store key0) val (Period rate)], [UNWATCH]]"
    by (rule a)+
  show "fst (Get store now key0 rate s) =
          Inr \<lparr>timestamp = now, window = Period rate, count = 1,
               expiration = now + Period rate\<rparr>"
    and "entries (snd (Get store now key0 rate s)) (namespaced store key0) =
          Some (IntVal 1, Some (formatMs (Period rate) * Millisecond))"
    and "issued (snd (Get store now key0 rate s)) =
          issued s @ [[WATCH (namespaced store key0)],
                      [SETNX (namespaced store key0) 1 (Period rate)], [UNWATCH]]"
    unfolding Get_def by (rule a)+
  show "0 < formatMs (Period rate) * Millisecond"
    and "formatMs (Period rate) * Millisecond \<le> Period rate"
    using window_in_ms [OF w] by simp_all
  assume "remainder (Period rate) Millisecond = 0"
  then show "formatMs (Period rate) * Millisecond = Period rate"
    using whole_ms_window [of "Period rate"] w by (simp add: Millisecond_def)
next
  assume z: "Period rate = 0"
  note a = GetVal_absent_zero [OF assms z]
  show "fst (GetVal store now key0 rate val s) =
          Inr \<lparr>timestamp = now, window = Period rate, count = val,
               expiration = now + Period rate\<rparr>"
    and "entries (snd (GetVal store now key0 rate val s)) (namespaced store key0) =
          Some (IntVal val, None)"
    by (rule a)+
  show "fst (Get store now key0 rate s) =
          Inr \<lparr>timestamp = now, window = Period rate, count = 1,
               expiration = now + Period rate\<rparr>"
    and "entries (snd (Get store now key0 rate s)) (namespaced store key0) =
          Some (IntVal 1, None)"
    unfolding Get_def by (rule a)+
next
  assume r: "Period rate \<noteq> 0 \<and> Period rate < Millisecond"
  note a = GetVal_absent_rejected [OF assms(2,3) r [THEN conjunct1] r [THEN conjunct2]]
  show "fst (GetVal store now key0 rate val s) =
          Inl (Wrap RetryExhausted (''limiter: cannot get value for '' @ namespaced store key0))"
    and "entries (snd (GetVal store now key0 rate val s)) (namespaced store key0) = None"
    by (rule a)+
  show "fst (Get store now key0 rate s) =
          Inl (Wrap RetryExhausted (''limiter: cannot get value for '' @ namespaced store key0))"
    and "entries (snd (Get store now key0 rate s)) (namespaced store key0) = None"
    unfolding Get_def by (rule a)+
qed

text \<open>
  Instances on an empty store with a budget of 3: a window of one second (the key
  gets one second), a zero window (no expiration) and a window of 500 microseconds
  (the call fails).
\<close>

theorem GetVal_creates_absent_key_witness:
  "fst (GetVal example_store 100 ''k'' example_rate 1 (idle_redis Map.empty [])) =
     Inr \<lparr>timestamp = 100, window = Second, count = 1, expiration = 100 + Second\<rparr> \<and>
   entries (snd (GetVal example_store 100 ''k'' example_rate 1 (idle_redis Map.empty [])))
     ''limiter:k'' = Some (IntVal 1, Some Second) \<and>
   entries (snd (Get example_store 100 ''k'' example_rate (idle_redis Map.empty [])))
     ''limiter:k'' = Some (IntVal 1, Some Second) \<and>
   issued (snd (GetVal example_store 100 ''k'' example_rate 1 (idle_redis Map.empty []))) =
     [[WATCH ''limiter:k''], [SETNX ''limiter:k'' 1 Second], [UNWATCH]] \<and>
   entries (snd (Get example_store 100 ''k'' (example_rate\<lparr>Period := 0\<rparr>)
     (idle_redis Map.empty []))) ''limiter:k'' = Some (IntVal 1, None) \<and>
   fst (Get example_store 100 ''k'' (example_rate\<lparr>Period := 500000\<rparr>)
     (idle_redis Map.empty [])) =
     Inl (Wrap RetryExhausted ''limiter: cannot get value for limiter:k'')"
proof -
  have budget: "0 < MaxRetry example_store"
    by (simp add: example_store_def)
  have absent: "entries (idle_redis Map.empty []) (namespaced example_store ''k'') = None"
    by (simp add: idle_redis_def)
  have quiet: "script (idle_redis Map.empty []) = []"
    by (simp add: idle_redis_def)
  have whole: "Millisecond \<le> Period example_rate \<and> remainder (Period example_rate) Millisecond = 0"
    by (simp add: example_rate_def remainder_def quo_def Second_def Millisecond_def)
  have zero: "Period (example_rate\<lparr>Period := 0\<rparr>) = 0"
    by simp
  have small: "Period (example_rate\<lparr>Period := 500000\<rparr>) \<noteq> 0 \<and>
      Period (example_rate\<lparr>Period := 500000\<rparr>) < Millisecond"
    by (simp add: Millisecond_def)
  from GetVal_creates_absent_key [OF budget absent quiet, of example_rate 100 1] whole
    GetVal_creates_absent_key [OF budget absent quiet, of "example_rate\<lparr>Period := 0\<rparr>" 100 1] zero
    GetVal_creates_absent_key [OF budget absent quiet, of "example_rate\<lparr>Period := 500000\<rparr>" 100 1]
    small
  show ?thesis
    by (simp add: namespaced_def example_store_def example_rate_def idle_redis_def)
qed

text \<open>
  C2. Whenever create-if-absent reports that it did not create the key, the same
  \<^verbatim>\<open>GetVal\<close> call goes on to the increment: its result is the result of
  \<^verbatim>\<open>doUpdateValue\<close> on the state left by \<^verbatim>\<open>doSetValue\<close>. When the increment
  succeeds with count \<open>c\<close> and time-to-live \<open>ttl\<close>, the CounterState has count \<open>c\<close>
  and expiration \<open>now + ttl\<close> if \<open>ttl > 0\<close>, and \<open>now + window\<close> if \<open>ttl \<le> 0\<close>; when
  it fails, the call fails with the wrapped error. The count is the counter value
  after the increment: in an undisturbed call on a key that holds the integer \<open>m\<close>
  (with \<open>m + val\<close> in the 64-bit range and a window the conditional set accepts),
  the count is \<open>m + val\<close>, the time-to-live is the one the store reports for the
  key, and the call issues the watch, the conditional set, the increment batch, the
  repair when that time-to-live is negative, and the release.
\<close>

theorem GetVal_falls_through_to_Increment:
  "(round_trip [WATCH (namespaced store key0)] s = (None, sw) \<and>
    doSetValue store (namespaced store key0) (Period rate) val
      (sw\<lparr>watched := [namespaced store key0], dirty := False\<rparr>) = ((False, None), s1)
    \<longrightarrow>
    GetVal store now key0 rate val s =
      (case doUpdateValue store (namespaced store key0) (Period rate) val s1 of
         ((c, ttl, None), s2) \<Rightarrow>
           (Inr \<lparr>timestamp = now, window = Period rate, count = c,
                 expiration = (if 0 < ttl then now + ttl else now + Period rate)\<rparr>, Close s2)
       | ((c, ttl, Some e), s2) \<Rightarrow>
           (Inl (Wrap e (''limiter: cannot get value for '' @ namespaced store key0)), Close s2)))
   \<and>
   (0 < MaxRetry store \<and> script s = [] \<and>
    entries s (namespaced store key0) = Some (IntVal m, t) \<and>
    MinInt64 \<le> m + val \<and> m + val \<le> MaxInt64 \<and>
    (Period rate = 0 \<or> Millisecond \<le> Period rate)
    \<longrightarrow>
    fst (GetVal store now key0 rate val s) =
      Inr \<lparr>timestamp = now, window = Period rate, count = m + val,
           expiration = (if 0 < pttl (namespaced store key0) s
                         then now + pttl (namespaced store key0) s
                         else now + Period rate)\<rparr> \<and>
    issued (snd (GetVal store now key0 rate val s)) =
      issued s @ [[WATCH (namespaced store key0)],
                  [SETNX (namespaced store key0) val (Period rate)],
                  [INCRBY (namespaced store key0) val, PTTL (namespaced store key0)]] @
                 (if pttl (namespaced store key0) s < 0
                  then [[EXPIRE (namespaced store key0) (Period rate)]] else []) @
                 [[UNWATCH]])"
proof (intro conjI impI)
  assume "round_trip [WATCH (namespaced store key0)] s = (None, sw) \<and>
    doSetValue store (namespaced store key0) (Period rate) val
      (sw\<lparr>watched := [namespaced store key0], dirty := False\<rparr>) = ((False, None), s1)"
  then show "GetVal store now key0 rate val s =
      (case doUpdateValue store (namespaced store key0) (Period rate) val s1 of
         ((c, ttl, None), s2) \<Rightarrow>
           (Inr \<lparr>timestamp = now, window = Period rate, count = c,
                 expiration = (if 0 < ttl then now + ttl else now + Period rate)\<rparr>, Close s2)
       | ((c, ttl, Some e), s2) \<Rightarrow>
           (Inl (Wrap e (''limiter: cannot get value for '' @ namespaced store key0)), Close s2))"
    by (simp add: GetVal_def Let_def Watch_def GetVal_onWatch_def GetContextFromState_def Add_def
        split: prod.splits option.splits)
next
  assume h: "0 < MaxRetry store \<and> script s = [] \<and>
    entries s (namespaced store key0) = Some (IntVal m, t) \<and>
    MinInt64 \<le> m + val \<and> m + val \<le> MaxInt64 \<and>
    (Period rate = 0 \<or> Millisecond \<le> Period rate)"
  have accepted: "Period rate \<noteq> 0 \<Longrightarrow>
      \<not> (if usePrecise (Period rate) then formatMs (Period rate) * Millisecond
          else formatSec (Period rate) * Second) \<le> 0"
    using h window_in_ms [of "Period rate"] by auto
  show "fst (GetVal store now key0 rate val s) =
      Inr \<lparr>timestamp = now, window = Period rate, count = m + val,
           expiration = (if 0 < pttl (namespaced store key0) s
                         then now + pttl (namespaced store key0) s
                         else now + Period rate)\<rparr>"
    using h accepted
    by (simp add: GetVal_def Let_def Watch_def round_trip_quiet GetVal_onWatch_def doSetValue_def
        doSetValue_loop.simps [of 0] setValue_def SetNX_def doUpdateValue_def
        doUpdateValue_loop.simps [of 0] updateValue_def Exec_IncrBy_PTTL_def incrby_def pttl_def
        Expire_def delete_key_def touch_def Close_def unwatch_def GetContextFromState_def Add_def
        split: option.splits)
  show "issued (snd (GetVal store now key0 rate val s)) =
      issued s @ [[WATCH (namespaced store key0)],
                  [SETNX (namespaced store key0) val (Period rate)],
                  [INCRBY (namespaced store key0) val, PTTL (namespaced store key0)]] @
                 (if pttl (namespaced store key0) s < 0
                  then [[EXPIRE (namespaced store key0) (Period rate)]] else []) @
                 [[UNWATCH]]"
    using h accepted
    by (simp add: GetVal_def Let_def Watch_def round_trip_quiet GetVal_onWatch_def doSetValue_def
        doSetValue_loop.simps [of 0] setValue_def SetNX_def doUpdateValue_def
        doUpdateValue_loop.simps [of 0] updateValue_def Exec_IncrBy_PTTL_def incrby_def pttl_def
        Expire_def delete_key_def touch_def Close_def unwatch_def GetContextFromState_def Add_def
        split: option.splits)
qed

text \<open>
  An instance: the key holds 5 with 400 milliseconds left; the call returns count 6
  and the expiration 400 milliseconds after \<open>now\<close>.
\<close>

theorem GetVal_falls_through_to_Increment_witness:
  "fst (GetVal example_store 100 ''k'' example_rate 1
          (idle_redis [''limiter:k'' \<mapsto> (IntVal 5, Some (400 * Millisecond))] [])) =
     Inr \<lparr>timestamp = 100, window = Second, count = 6, expiration = 100 + 400 * Millisecond\<rparr> \<and>
   issued (snd (GetVal example_store 100 ''k'' example_rate 1
          (idle_redis [''limiter:k'' \<mapsto> (IntVal 5, Some (400 * Millisecond))] []))) =
     [[WATCH ''limiter:k''], [SETNX ''limiter:k'' 1 Second],
      [INCRBY ''limiter:k'' 1, PTTL ''limiter:k''], [UNWATCH]]"
proof -
  let ?init = "idle_redis [''limiter:k'' \<mapsto> (IntVal 5, Some (400 * Millisecond))] []"
  let ?k = "namespaced example_store ''k''"
  let ?sw = "snd (round_trip [WATCH ?k] ?init)"
  let ?set = "snd (doSetValue example_store ?k (Period example_rate) 1
                (?sw\<lparr>watched := [?k], dirty := False\<rparr>))"
  have w: "round_trip [WATCH ?k] ?init = (None, ?sw)"
    by (simp add: round_trip_def Let_def idle_redis_def)
  have c: "doSetValue example_store ?k (Period example_rate) 1
             (?sw\<lparr>watched := [?k], dirty := False\<rparr>) = ((False, None), ?set)"
    by (simp add: namespaced_def round_trip_def Let_def delete_key_def touch_def setValue_def
        doSetValue_def doSetValue_loop.simps SetNX_def usePrecise_def formatMs_def formatSec_def
        quo_def remainder_def example_store_def example_rate_def idle_redis_def Second_def
        Millisecond_def)
  have b: "0 < MaxRetry example_store \<and> script ?init = [] \<and>
      entries ?init ?k = Some (IntVal 5, Some (400 * Millisecond)) \<and>
      MinInt64 \<le> 5 + 1 \<and> 5 + 1 \<le> MaxInt64 \<and>
      (Period example_rate = 0 \<or> Millisecond \<le> Period example_rate)"
    by (simp add: namespaced_def example_store_def example_rate_def idle_redis_def MinInt64_def
        MaxInt64_def Second_def Millisecond_def)
  note th = GetVal_falls_through_to_Increment
    [where store = example_store and ?key0.0 = "''k''" and s = ?init and sw = ?sw
       and rate = example_rate and val = 1 and ?s1.0 = ?set and now = 100 and m = 5
       and t = "Some (400 * Millisecond)"]
  note through = th [THEN conjunct1, THEN mp, OF conjI [OF w c]]
  note counted = th [THEN conjunct2, THEN mp, OF b]
  have u: "fst (doUpdateValue example_store ?k (Period example_rate) 1 ?set) =
      (6, 400 * Millisecond, None)"
    by (simp add: namespaced_def round_trip_def Let_def delete_key_def touch_def setValue_def
        doSetValue_def doSetValue_loop.simps SetNX_def usePrecise_def formatMs_def formatSec_def
        quo_def remainder_def doUpdateValue_def doUpdateValue_loop.simps updateValue_def
        Exec_IncrBy_PTTL_def incrby_def pttl_def unwatch_def MinInt64_def MaxInt64_def
        example_store_def example_rate_def idle_redis_def Second_def Millisecond_def)
  obtain r s2 where d: "doUpdateValue example_store ?k (Period example_rate) 1 ?set = (r, s2)"
    by (metis prod.exhaust)
  have r: "r = (6, 400 * Millisecond, None)"
    using u d by simp
  have "fst (GetVal example_store 100 ''k'' example_rate 1 ?init) =
      Inr \<lparr>timestamp = 100, window = Second, count = 6, expiration = 100 + 400 * Millisecond\<rparr>"
    unfolding through d r
    by (simp add: example_rate_def Millisecond_def)
  moreover have "issued (snd (GetVal example_store 100 ''k'' example_rate 1 ?init)) =
     [[WATCH ''limiter:k''], [SETNX ''limiter:k'' 1 Second],
      [INCRBY ''limiter:k'' 1, PTTL ''limiter:k''], [UNWATCH]]"
    using counted [THEN conjunct2]
    by (simp add: namespaced_def pttl_def example_store_def example_rate_def idle_redis_def
        Millisecond_def)
  ultimately show ?thesis by simp
qed

text \<open>
  C3, as the specification words it, does not hold in two places. A time-to-live of
  exactly 0 is not positive, yet it is not repaired: on a key that holds 5 and
  expires at this very instant, \<^verbatim>\<open>updateValue\<close> reads the time-to-live 0, issues the
  batch and nothing else, and a peek right afterwards reports the time-to-live 0. And
  a repair with a window under one second does not leave a positive time-to-live: on
  a key that holds 5 without expiration and a window of 400 milliseconds, the
  expire-setting call is sent with 0 seconds, the store removes the key, and a peek
  right afterwards reports count 0 and the sentinel of an absent key.
\<close>

theorem zero_ttl_and_short_window_are_not_repaired:
  "fst (updateValue ''limiter:k'' Second 1
          (idle_redis [''limiter:k'' \<mapsto> (IntVal 5, Some 0)] [])) = (6, 0, None) \<and>
   issued (snd (updateValue ''limiter:k'' Second 1
          (idle_redis [''limiter:k'' \<mapsto> (IntVal 5, Some 0)] []))) =
     [[INCRBY ''limiter:k'' 1, PTTL ''limiter:k'']] \<and>
   fst (peekValue ''limiter:k'' (snd (updateValue ''limiter:k'' Second 1
          (idle_redis [''limiter:k'' \<mapsto> (IntVal 5, Some 0)] [])))) = (6, 0, None) \<and>
   fst (updateValue ''limiter:k'' (400 * Millisecond) 1
          (idle_redis [''limiter:k'' \<mapsto> (IntVal 5, None)] [])) = (6, - 1 * Millisecond, None) \<and>
   issued (snd (updateValue ''limiter:k'' (400 * Millisecond) 1
          (idle_redis [''limiter:k'' \<mapsto> (IntVal 5, None)] []))) =
     [[INCRBY ''limiter:k'' 1, PTTL ''limiter:k''], [EXPIRE ''limiter:k'' (400 * Millisecond)]] \<and>
   fst (peekValue ''limiter:k'' (snd (updateValue ''limiter:k'' (400 * Millisecond) 1
          (idle_redis [''limiter:k'' \<mapsto> (IntVal 5, None)] [])))) = (0, - 2 * Millisecond, None)"
  by (simp add: updateValue_def Exec_IncrBy_PTTL_def incrby_def pttl_def unwatch_def MinInt64_def
      MaxInt64_def Millisecond_def round_trip_def Let_def delete_key_def touch_def
      Expire_def formatSec_def quo_def peekValue_def Exec_Get_PTTL_def get_def Int64_def
      idle_redis_def Second_def)

text \<open>
  C3 (amended). Whenever the time-to-live read by the increment batch is negative,
  \<^verbatim>\<open>updateValue\<close> issues the expire-setting call with the given window right after
  the batch. When that repair succeeds, the window is at least one second and nothing
  disturbs the next round trip, a peek immediately afterwards reports the
  post-increment count and a time-to-live that is positive and at most the window
  (the window cut to whole seconds).
\<close>

theorem negative_ttl_is_repaired:
  assumes "Exec_IncrBy_PTTL k v s = ((None, (c, None), (ttl, None)), s1)"
    and "ttl < 0"
  shows "issued (snd (updateValue k T v s)) = issued s @ [[INCRBY k v, PTTL k], [EXPIRE k T]] \<and>
         (snd (snd (fst (updateValue k T v s))) = None \<and> Second \<le> T \<and>
          script (snd (updateValue k T v s)) = [] \<longrightarrow>
            fst (peekValue k (snd (updateValue k T v s))) = (c, formatSec T * Second, None) \<and>
            0 < formatSec T * Second \<and> formatSec T * Second \<le> T)"
proof -
  obtain ok err2 s2 where xp: "Expire k T s1 = ((ok, err2), s2)"
    by (metis prod.exhaust)
  have i1: "issued s1 = issued s @ [[INCRBY k v, PTTL k]]"
    using Exec_IncrBy_PTTL_issued [of k v s] assms(1) by simp
  have i2: "issued s2 = issued s1 @ [[EXPIRE k T]]"
    using Expire_issued [of k T s1] xp by simp
  have s2: "snd (updateValue k T v s) = s2"
    using assms xp by (simp add: updateValue_def)
  have first: "issued (snd (updateValue k T v s)) = issued s @ [[INCRBY k v, PTTL k], [EXPIRE k T]]"
    using s2 i1 i2 by simp
  have second: "fst (peekValue k (snd (updateValue k T v s))) = (c, formatSec T * Second, None) \<and>
            0 < formatSec T * Second \<and> formatSec T * Second \<le> T"
    if ok: "snd (snd (fst (updateValue k T v s))) = None" and whole: "Second \<le> T"
      and quiet: "script (snd (updateValue k T v s)) = []"
  proof -
    have "ok \<and> err2 = None"
      using ok assms xp by (auto simp add: updateValue_def split: if_splits)
    then have xp': "Expire k T s1 = ((True, None), s2)"
      using xp by simp
    note st1 = Exec_IncrBy_PTTL_success [OF assms(1)]
    then obtain t where t: "entries s1 k = Some (IntVal c, t)" by blast
    note secs = formatSec_whole [OF whole]
    have st2: "entries s2 k = Some (IntVal c, Some (formatSec T * Second)) \<and> watched s2 = [] \<and>
        \<not> dirty s2"
      using Expire_success [OF xp' secs [THEN conjunct1] t] st1 by simp
    have "script s2 = []" using quiet s2 by simp
    then have "fst (peekValue k s2) = (c, formatSec T * Second, None)"
      using st2
      by (simp add: peekValue_def Exec_Get_PTTL_def round_trip_quiet get_def pttl_def Int64_def)
    then show ?thesis using s2 secs by simp
  qed
  show ?thesis using first second by blast
qed

text \<open>
  An instance: the key holds 5 without expiration and the window is 1.5 seconds; the
  batch reads \<open>-1\<close> millisecond, the repair sets one second, and the peek reports
  count 6 with one second left.
\<close>

theorem negative_ttl_is_repaired_witness:
  "issued (snd (updateValue ''limiter:k'' (1500 * Millisecond) 1
          (idle_redis [''limiter:k'' \<mapsto> (IntVal 5, None)] []))) =
     [[INCRBY ''limiter:k'' 1, PTTL ''limiter:k''], [EXPIRE ''limiter:k'' (1500 * Millisecond)]] \<and>
   fst (peekValue ''limiter:k'' (snd (updateValue ''limiter:k'' (1500 * Millisecond) 1
          (idle_redis [''limiter:k'' \<mapsto> (IntVal 5, None)] [])))) = (6, Second, None)"
proof -
  let ?init = "idle_redis [''limiter:k'' \<mapsto> (IntVal 5, None)] []"
  have b: "Exec_IncrBy_PTTL ''limiter:k'' 1 ?init =
      ((None, (6, None), (- 1 * Millisecond, None)), snd (Exec_IncrBy_PTTL ''limiter:k'' 1 ?init))"
    by (simp add: Exec_IncrBy_PTTL_def incrby_def pttl_def unwatch_def MinInt64_def MaxInt64_def
        Millisecond_def round_trip_def Let_def delete_key_def touch_def idle_redis_def)
  have neg: "- 1 * Millisecond < 0"
    by (simp add: Millisecond_def)
  have ok: "snd (snd (fst (updateValue ''limiter:k'' (1500 * Millisecond) 1 ?init))) = None"
    by (simp add: updateValue_def Exec_IncrBy_PTTL_def incrby_def pttl_def unwatch_def
        MinInt64_def MaxInt64_def Millisecond_def round_trip_def Let_def delete_key_def
        touch_def Expire_def formatSec_def quo_def idle_redis_def Second_def)
  have whole: "Second \<le> 1500 * Millisecond"
    by (simp add: Second_def Millisecond_def)
  have quiet: "script (snd (updateValue ''limiter:k'' (1500 * Millisecond) 1 ?init)) = []"
    by (simp add: updateValue_def Exec_IncrBy_PTTL_def incrby_def pttl_def unwatch_def
        MinInt64_def MaxInt64_def Millisecond_def round_trip_def Let_def delete_key_def
        touch_def Expire_def formatSec_def quo_def idle_redis_def Second_def)
  have secs: "formatSec (1500 * Millisecond) * Second = Second"
    by (simp add: formatSec_def quo_def Second_def Millisecond_def)
  from negative_ttl_is_repaired [OF b neg, of "1500 * Millisecond"] ok whole quiet
  show ?thesis
    unfolding secs by (simp add: idle_redis_def)
qed

text \<open>
  C4, as the specification words it (only conflicts are retried), does not hold. An
  error that is not a transaction conflict is retried as well: on a key whose
  value is not integer-shaped, one \<^verbatim>\<open>peekValue\<close> fails with the parse error, and
  \<^verbatim>\<open>doPeekValue\<close> with a budget of 3 sends the batch three times and then reports
  the retry-limit error.
\<close>

theorem malformed_value_is_retried:
  "fst (peekValue ''limiter:k'' (idle_redis [''limiter:k'' \<mapsto> (RawVal ''abc'', None)] [])) =
     (0, 0, Some (Failure ''strconv.ParseInt: invalid syntax'')) \<and>
   fst (doPeekValue example_store ''limiter:k''
          (idle_redis [''limiter:k'' \<mapsto> (RawVal ''abc'', None)] [])) =
     (0, 0, Some RetryExhausted) \<and>
   issued (snd (doPeekValue example_store ''limiter:k''
          (idle_redis [''limiter:k'' \<mapsto> (RawVal ''abc'', None)] []))) =
     [[GET ''limiter:k'', PTTL ''limiter:k''], [GET ''limiter:k'', PTTL ''limiter:k''],
      [GET ''limiter:k'', PTTL ''limiter:k'']]"
  by (simp add: doPeekValue_def doPeekValue_loop.simps peekValue_def Exec_Get_PTTL_def get_def
      pttl_def Int64_def unwatch_def Millisecond_def round_trip_def Let_def delete_key_def
      touch_def RetryExhausted_def example_store_def idle_redis_def Second_def)

text \<open>
  C4 (amended). The retry loops do not look at the kind of an error. In every
  iteration below the budget, an attempt of \<^verbatim>\<open>doSetValue\<close> or \<^verbatim>\<open>doPeekValue\<close>
  that fails, whatever its error, is followed by the next iteration; so is a failed
  attempt of \<^verbatim>\<open>doUpdateValue\<close> whose time-to-live is not negative, while one whose
  time-to-live is negative (the failure is in the repair step) ends the call at once
  with its error. When all attempts the budget allows fail in this way, the call
  makes exactly that many attempts and fails with the retry-limit error. Conversely,
  when \<^verbatim>\<open>doSetValue\<close> or \<^verbatim>\<open>doPeekValue\<close> fails, its error is the retry-limit error
  and it has made as many attempts as the budget allows, and when \<^verbatim>\<open>doUpdateValue\<close>
  fails, either the same holds or its last round trip was the expire-setting call.
\<close>

theorem retry_loops_retry_every_error:
  "(i < MaxRetry store \<and> setValue k T v s = ((created, Some e), s1) \<longrightarrow>
      doSetValue_loop i store k T v s = doSetValue_loop (i + 1) store k T v s1) \<and>
   (i < MaxRetry store \<and> peekValue k s = ((c, ttl, Some e), s1) \<longrightarrow>
      doPeekValue_loop i store k s = doPeekValue_loop (i + 1) store k s1) \<and>
   (i < MaxRetry store \<and> updateValue k T v s = ((c, ttl, Some e), s1) \<and> 0 \<le> ttl \<longrightarrow>
      doUpdateValue_loop i store k T v s = doUpdateValue_loop (i + 1) store k T v s1) \<and>
   (i < MaxRetry store \<and> updateValue k T v s = ((c, ttl, Some e), s1) \<and> ttl < 0 \<longrightarrow>
      doUpdateValue_loop i store k T v s = ((0, 0, Some e), s1)) \<and>
   (setValue_fails (nat (MaxRetry store)) k T v s \<longrightarrow>
      fst (doSetValue store k T v s) = (False, Some RetryExhausted) \<and>
      issued (snd (doSetValue store k T v s)) =
        issued s @ replicate (nat (MaxRetry store)) [SETNX k v T]) \<and>
   (peekValue_fails (nat (MaxRetry store)) k s \<longrightarrow>
      fst (doPeekValue store k s) = (0, 0, Some RetryExhausted) \<and>
      issued (snd (doPeekValue store k s)) =
        issued s @ replicate (nat (MaxRetry store)) [GET k, PTTL k]) \<and>
   (updateValue_fails (nat (MaxRetry store)) k T v s \<longrightarrow>
      fst (doUpdateValue store k T v s) = (0, 0, Some RetryExhausted) \<and>
      issued (snd (doUpdateValue store k T v s)) =
        issued s @ replicate (nat (MaxRetry store)) [INCRBY k v, PTTL k]) \<and>
   (snd (fst (doSetValue store k T v s)) \<noteq> None \<longrightarrow>
      snd (fst (doSetValue store k T v s)) = Some RetryExhausted \<and>
      issued (snd (doSetValue store k T v s)) =
        issued s @ replicate (nat (MaxRetry store)) [SETNX k v T]) \<and>
   (snd (snd (fst (doPeekValue store k s))) \<noteq> None \<longrightarrow>
      snd (snd (fst (doPeekValue store k s))) = Some RetryExhausted \<and>
      issued (snd (doPeekValue store k s)) =
        issued s @ replicate (nat (MaxRetry store)) [GET k, PTTL k]) \<and>
   (snd (snd (fst (doUpdateValue store k T v s))) \<noteq> None \<longrightarrow>
      (snd (snd (fst (doUpdateValue store k T v s))) = Some RetryExhausted \<and>
       issued (snd (doUpdateValue store k T v s)) =
         issued s @ replicate (nat (MaxRetry store)) [INCRBY k v, PTTL k]) \<or>
      last (issued (snd (doUpdateValue store k T v s))) = [EXPIRE k T])"
proof -
  have r1: "doSetValue_loop i store k T v s = doSetValue_loop (i + 1) store k T v s1"
    if "i < MaxRetry store \<and> setValue k T v s = ((created, Some e), s1)"
    using that by (simp add: doSetValue_loop.simps [of i])
  have r2: "doPeekValue_loop i store k s = doPeekValue_loop (i + 1) store k s1"
    if "i < MaxRetry store \<and> peekValue k s = ((c, ttl, Some e), s1)"
    using that by (simp add: doPeekValue_loop.simps [of i])
  have r3: "doUpdateValue_loop i store k T v s = doUpdateValue_loop (i + 1) store k T v s1"
    if "i < MaxRetry store \<and> updateValue k T v s = ((c, ttl, Some e), s1) \<and> 0 \<le> ttl"
    using that by (simp add: doUpdateValue_loop.simps [of i])
  have r4: "doUpdateValue_loop i store k T v s = ((0, 0, Some e), s1)"
    if "i < MaxRetry store \<and> updateValue k T v s = ((c, ttl, Some e), s1) \<and> ttl < 0"
    using that by (simp add: doUpdateValue_loop.simps [of i])
  have f1: "fst (doSetValue store k T v s) = (False, Some RetryExhausted) \<and>
      issued (snd (doSetValue store k T v s)) =
        issued s @ replicate (nat (MaxRetry store)) [SETNX k v T]"
    if "setValue_fails (nat (MaxRetry store)) k T v s"
    using doSetValue_loop_exhausts [of store 0 k T v s] that by (simp add: doSetValue_def)
  have f2: "fst (doPeekValue store k s) = (0, 0, Some RetryExhausted) \<and>
      issued (snd (doPeekValue store k s)) =
        issued s @ replicate (nat (MaxRetry store)) [GET k, PTTL k]"
    if "peekValue_fails (nat (MaxRetry store)) k s"
    using doPeekValue_loop_exhausts [of store 0 k s] that by (simp add: doPeekValue_def)
  have f3: "fst (doUpdateValue store k T v s) = (0, 0, Some RetryExhausted) \<and>
      issued (snd (doUpdateValue store k T v s)) =
        issued s @ replicate (nat (MaxRetry store)) [INCRBY k v, PTTL k]"
    if "updateValue_fails (nat (MaxRetry store)) k T v s"
    using doUpdateValue_loop_exhausts [of store 0 k T v s] that by (simp add: doUpdateValue_def)
  have c1: "snd (fst (doSetValue store k T v s)) = Some RetryExhausted \<and>
      issued (snd (doSetValue store k T v s)) =
        issued s @ replicate (nat (MaxRetry store)) [SETNX k v T]"
    if "snd (fst (doSetValue store k T v s)) \<noteq> None"
  proof -
    from that obtain e' where e': "snd (fst (doSetValue_loop 0 store k T v s)) = Some e'"
      by (auto simp add: doSetValue_def)
    from doSetValue_loop_fails [OF e'] e' show ?thesis
      by (simp add: doSetValue_def)
  qed
  have c2: "snd (snd (fst (doPeekValue store k s))) = Some RetryExhausted \<and>
      issued (snd (doPeekValue store k s)) =
        issued s @ replicate (nat (MaxRetry store)) [GET k, PTTL k]"
    if "snd (snd (fst (doPeekValue store k s))) \<noteq> None"
  proof -
    from that obtain e' where e': "snd (snd (fst (doPeekValue_loop 0 store k s))) = Some e'"
      by (auto simp add: doPeekValue_def)
    from doPeekValue_loop_fails [OF e'] e' show ?thesis
      by (simp add: doPeekValue_def)
  qed
  have c3: "(snd (snd (fst (doUpdateValue store k T v s))) = Some RetryExhausted \<and>
       issued (snd (doUpdateValue store k T v s)) =
         issued s @ replicate (nat (MaxRetry store)) [INCRBY k v, PTTL k]) \<or>
      last (issued (snd (doUpdateValue store k T v s))) = [EXPIRE k T]"
    if "snd (snd (fst (doUpdateValue store k T v s))) \<noteq> None"
  proof -
    from that obtain e' where e': "snd (snd (fst (doUpdateValue_loop 0 store k T v s))) = Some e'"
      by (auto simp add: doUpdateValue_def)
    from doUpdateValue_loop_fails [OF e'] e' show ?thesis
      by (auto simp add: doUpdateValue_def)
  qed
  show ?thesis
    using r1 r2 r3 r4 f1 f2 f3 c1 c2 c3 by blast
qed

text \<open>
  Instances with a budget of 3: an increment on a value that is not integer-shaped
  fails three times and ends in the retry-limit error, and so do a conditional set
  and a peek under three I/O failures in a row.
\<close>

theorem retry_loops_retry_every_error_witness:
  "fst (doUpdateValue example_store ''limiter:k'' Second 1
          (idle_redis [''limiter:k'' \<mapsto> (RawVal ''abc'', None)] [])) =
     (0, 0, Some RetryExhausted) \<and>
   issued (snd (doUpdateValue example_store ''limiter:k'' Second 1
          (idle_redis [''limiter:k'' \<mapsto> (RawVal ''abc'', None)] []))) =
     [[INCRBY ''limiter:k'' 1, PTTL ''limiter:k''], [INCRBY ''limiter:k'' 1, PTTL ''limiter:k''],
      [INCRBY ''limiter:k'' 1, PTTL ''limiter:k'']] \<and>
   fst (doSetValue example_store ''limiter:k'' Second 1
          (idle_redis Map.empty [Fault (Failure ''i/o timeout''), Fault (Failure ''i/o timeout''),
                                Fault (Failure ''i/o timeout'')])) =
     (False, Some RetryExhausted) \<and>
   issued (snd (doSetValue example_store ''limiter:k'' Second 1
          (idle_redis Map.empty [Fault (Failure ''i/o timeout''), Fault (Failure ''i/o timeout''),
                                Fault (Failure ''i/o timeout'')]))) =
     [[SETNX ''limiter:k'' 1 Second], [SETNX ''limiter:k'' 1 Second], [SETNX ''limiter:k'' 1 Second]] \<and>
   fst (doPeekValue example_store ''limiter:k''
          (idle_redis Map.empty [Fault (Failure ''i/o timeout''), Fault (Failure ''i/o timeout''),
                                Fault (Failure ''i/o timeout'')])) =
     (0, 0, Some RetryExhausted)"
proof -
  let ?corrupt = "idle_redis [''limiter:k'' \<mapsto> (RawVal ''abc'', None)] []"
  let ?faulty = "idle_redis Map.empty [Fault (Failure ''i/o timeout''),
      Fault (Failure ''i/o timeout''), Fault (Failure ''i/o timeout'')]"
  have n: "nat (MaxRetry example_store) = Suc (Suc (Suc 0))"
    by (simp add: example_store_def)
  have u: "updateValue_fails (nat (MaxRetry example_store)) ''limiter:k'' Second 1 ?corrupt"
    unfolding n
    by (simp add: updateValue_def Exec_IncrBy_PTTL_def incrby_def pttl_def unwatch_def
        round_trip_def Let_def idle_redis_def)
  have a: "setValue_fails (nat (MaxRetry example_store)) ''limiter:k'' Second 1 ?faulty"
    unfolding n
    by (simp add: setValue_def SetNX_def round_trip_def Let_def idle_redis_def)
  have b: "peekValue_fails (nat (MaxRetry example_store)) ''limiter:k'' ?faulty"
    unfolding n
    by (simp add: peekValue_def Exec_Get_PTTL_def Int64_def round_trip_def Let_def idle_redis_def)
  have r: "replicate (Suc (Suc (Suc 0))) x = [x, x, x]" for x :: "cmd list"
    by simp
  note corrupt = retry_loops_retry_every_error
    [where store = example_store and k = "''limiter:k''" and T = Second and v = 1
       and s = ?corrupt]
  note faulty = retry_loops_retry_every_error
    [where store = example_store and k = "''limiter:k''" and T = Second and v = 1
       and s = ?faulty]
  note c7 = corrupt [THEN conjunct2, THEN conjunct2, THEN conjunct2, THEN conjunct2,
      THEN conjunct2, THEN conjunct2, THEN conjunct1, THEN mp, OF u]
  note f5 = faulty [THEN conjunct2, THEN conjunct2, THEN conjunct2, THEN conjunct2,
      THEN conjunct1, THEN mp, OF a]
  note f6 = faulty [THEN conjunct2, THEN conjunct2, THEN conjunct2, THEN conjunct2,
      THEN conjunct2, THEN conjunct1, THEN mp, OF b]
  show ?thesis
    using c7 f5 f6 unfolding n r by (simp add: idle_redis_def)
qed

text \<open>
  C5. For every attempt of the increment loop (any counter value \<open>i\<close> below the
  budget): when \<^verbatim>\<open>updateValue\<close> returns an error together with a negative
  time-to-live, \<^verbatim>\<open>doUpdateValue\<close> returns that error at once, in the state that
  attempt left, without a further attempt. The attempt had issued the batch and the
  expire-setting call.
\<close>

theorem doUpdateValue_aborts_on_negative_ttl:
  assumes "i < MaxRetry store"
    and "updateValue k T v s = ((c, ttl, Some e), s1)"
    and "ttl < 0"
  shows "doUpdateValue_loop i store k T v s = ((0, 0, Some e), s1) \<and>
         issued s1 = issued s @ [[INCRBY k v, PTTL k], [EXPIRE k T]]"
  using assms updateValue_failed_cases [OF assms(2)]
  by (simp add: doUpdateValue_loop.simps [of i])

text \<open>
  An instance: the key holds 5 without expiration and the expire-setting call meets
  an I/O failure; with a budget of 3 the loop makes one attempt and returns that
  failure.
\<close>

theorem doUpdateValue_aborts_on_negative_ttl_witness:
  "fst (doUpdateValue example_store ''limiter:k'' Second 1
          (idle_redis [''limiter:k'' \<mapsto> (IntVal 5, None)] [Normal, Fault (Failure ''i/o timeout'')])) =
     (0, 0, Some (Failure ''i/o timeout'')) \<and>
   issued (snd (doUpdateValue example_store ''limiter:k'' Second 1
          (idle_redis [''limiter:k'' \<mapsto> (IntVal 5, None)] [Normal, Fault (Failure ''i/o timeout'')]))) =
     [[INCRBY ''limiter:k'' 1, PTTL ''limiter:k''], [EXPIRE ''limiter:k'' Second]]"
proof -
  let ?s = "idle_redis [''limiter:k'' \<mapsto> (IntVal 5, None)] [Normal, Fault (Failure ''i/o timeout'')]"
  have budget: "0 < MaxRetry example_store"
    by (simp add: example_store_def)
  have u: "updateValue ''limiter:k'' Second 1 ?s =
      ((6, - 1 * Millisecond, Some (Failure ''i/o timeout'')),
       snd (updateValue ''limiter:k'' Second 1 ?s))"
    by (simp add: formatSec_def quo_def doUpdateValue_def doUpdateValue_loop.simps updateValue_def Exec_IncrBy_PTTL_def
      incrby_def pttl_def unwatch_def MinInt64_def MaxInt64_def Millisecond_def
      round_trip_def Let_def delete_key_def touch_def Expire_def example_store_def
      idle_redis_def Second_def)
  have neg: "- 1 * Millisecond < 0"
    by (simp add: Millisecond_def)
  from doUpdateValue_aborts_on_negative_ttl [OF budget u neg]
  show ?thesis
    by (simp add: doUpdateValue_def idle_redis_def)
qed

text \<open>
  C6. When the batch of an increment attempt succeeds with a negative time-to-live
  and the expire-setting call then answers that the key does not exist,
  \<^verbatim>\<open>updateValue\<close> fails with the error \<open>CannotSetExpiration\<close>; the loop returns it
  from any attempt without retrying; and \<^verbatim>\<open>GetVal\<close> hands it to its caller, wrapped
  with the key.
\<close>

theorem lost_key_in_repair_is_surfaced:
  assumes "Exec_IncrBy_PTTL k v s = ((None, (c, None), (ttl, None)), s1)"
    and "ttl < 0"
    and "Expire k T s1 = ((False, None), s2)"
  shows "updateValue k T v s = ((c, ttl, Some CannotSetExpiration), s2) \<and>
         (\<forall>i store. i < MaxRetry store \<longrightarrow>
            doUpdateValue_loop i store k T v s = ((0, 0, Some CannotSetExpiration), s2)) \<and>
         (\<forall>store now key0 rate s0 sw.
            0 < MaxRetry store \<and> k = namespaced store key0 \<and> T = Period rate \<and>
            round_trip [WATCH k] s0 = (None, sw) \<and>
            doSetValue store k T v (sw\<lparr>watched := [k], dirty := False\<rparr>) = ((False, None), s)
            \<longrightarrow> GetVal store now key0 rate v s0 =
                  (Inl (Wrap CannotSetExpiration (''limiter: cannot get value for '' @ k)), Close s2))"
proof -
  have uv: "updateValue k T v s = ((c, ttl, Some CannotSetExpiration), s2)"
    using assms by (simp add: updateValue_def CannotSetExpiration_def)
  have loop: "doUpdateValue_loop i store k T v s = ((0, 0, Some CannotSetExpiration), s2)"
    if "i < MaxRetry store" for i store
    using that uv assms(2) by (simp add: doUpdateValue_loop.simps [of i])
  have top: "GetVal store now key0 rate v s0 =
      (Inl (Wrap CannotSetExpiration (''limiter: cannot get value for '' @ k)), Close s2)"
    if "0 < MaxRetry store" "k = namespaced store key0" "T = Period rate"
      "round_trip [WATCH k] s0 = (None, sw)"
      "doSetValue store k T v (sw\<lparr>watched := [k], dirty := False\<rparr>) = ((False, None), s)"
    for store now key0 rate s0 sw
    using that loop [of 0 store]
    by (simp add: GetVal_def Let_def Watch_def GetVal_onWatch_def doUpdateValue_def)
  show ?thesis
    using uv loop top by blast
qed

text \<open>
  An instance: the key holds 5 without expiration and a concurrent client deletes it
  between the batch and the expire-setting call.
\<close>

theorem lost_key_in_repair_is_surfaced_witness:
  "fst (GetVal example_store 100 ''k'' example_rate 1
          (idle_redis [''limiter:k'' \<mapsto> (IntVal 5, None)]
             [Normal, Normal, Normal, Deleted ''limiter:k''])) =
     Inl (Wrap CannotSetExpiration ''limiter: cannot get value for limiter:k'') \<and>
   issued (snd (GetVal example_store 100 ''k'' example_rate 1
          (idle_redis [''limiter:k'' \<mapsto> (IntVal 5, None)]
             [Normal, Normal, Normal, Deleted ''limiter:k'']))) =
     [[WATCH ''limiter:k''], [SETNX ''limiter:k'' 1 Second],
      [INCRBY ''limiter:k'' 1, PTTL ''limiter:k''], [EXPIRE ''limiter:k'' Second], [UNWATCH]]"
proof -
  let ?init = "idle_redis [''limiter:k'' \<mapsto> (IntVal 5, None)]
               [Normal, Normal, Normal, Deleted ''limiter:k'']"
  let ?sw = "snd (round_trip [WATCH ''limiter:k''] ?init)"
  let ?s = "snd (doSetValue example_store ''limiter:k'' Second 1
                (?sw\<lparr>watched := [''limiter:k''], dirty := False\<rparr>))"
  let ?s1 = "snd (Exec_IncrBy_PTTL ''limiter:k'' 1 ?s)"
  let ?s2 = "snd (Expire ''limiter:k'' Second ?s1)"
  have b: "Exec_IncrBy_PTTL ''limiter:k'' 1 ?s = ((None, (6, None), (- 1 * Millisecond, None)), ?s1)"
    by (simp add: usePrecise_def formatMs_def formatSec_def quo_def remainder_def GetVal_def namespaced_def GetVal_onWatch_def GetContextFromState_def Add_def
      empty_Context_def Watch_def Close_def unwatch_def round_trip_def Let_def
      delete_key_def touch_def setValue_def doSetValue_def doSetValue_loop.simps SetNX_def
      doUpdateValue_def doUpdateValue_loop.simps updateValue_def Exec_IncrBy_PTTL_def
      incrby_def pttl_def MinInt64_def MaxInt64_def Millisecond_def Expire_def
      CannotSetExpiration_def example_store_def example_rate_def idle_redis_def Second_def)
  have neg: "- 1 * Millisecond < 0"
    by (simp add: Millisecond_def)
  have gone: "Expire ''limiter:k'' Second ?s1 = ((False, None), ?s2)"
    by (simp add: usePrecise_def formatMs_def formatSec_def quo_def remainder_def GetVal_def namespaced_def GetVal_onWatch_def GetContextFromState_def Add_def
      empty_Context_def Watch_def Close_def unwatch_def round_trip_def Let_def
      delete_key_def touch_def setValue_def doSetValue_def doSetValue_loop.simps SetNX_def
      doUpdateValue_def doUpdateValue_loop.simps updateValue_def Exec_IncrBy_PTTL_def
      incrby_def pttl_def MinInt64_def MaxInt64_def Millisecond_def Expire_def
      CannotSetExpiration_def example_store_def example_rate_def idle_redis_def Second_def)
  have p1: "0 < MaxRetry example_store \<and> ''limiter:k'' = namespaced example_store ''k'' \<and>
      Second = Period example_rate"
    by (simp add: usePrecise_def formatMs_def formatSec_def quo_def remainder_def GetVal_def namespaced_def GetVal_onWatch_def GetContextFromState_def Add_def
      empty_Context_def Watch_def Close_def unwatch_def round_trip_def Let_def
      delete_key_def touch_def setValue_def doSetValue_def doSetValue_loop.simps SetNX_def
      doUpdateValue_def doUpdateValue_loop.simps updateValue_def Exec_IncrBy_PTTL_def
      incrby_def pttl_def MinInt64_def MaxInt64_def Millisecond_def Expire_def
      CannotSetExpiration_def example_store_def example_rate_def idle_redis_def Second_def)
  have p2: "round_trip [WATCH ''limiter:k''] ?init = (None, ?sw)"
    by (simp add: usePrecise_def formatMs_def formatSec_def quo_def remainder_def GetVal_def namespaced_def GetVal_onWatch_def GetContextFromState_def Add_def
      empty_Context_def Watch_def Close_def unwatch_def round_trip_def Let_def
      delete_key_def touch_def setValue_def doSetValue_def doSetValue_loop.simps SetNX_def
      doUpdateValue_def doUpdateValue_loop.simps updateValue_def Exec_IncrBy_PTTL_def
      incrby_def pttl_def MinInt64_def MaxInt64_def Millisecond_def Expire_def
      CannotSetExpiration_def example_store_def example_rate_def idle_redis_def Second_def)
  have p3: "doSetValue example_store ''limiter:k'' Second 1
        (?sw\<lparr>watched := [''limiter:k''], dirty := False\<rparr>) = ((False, None), ?s)"
    by (simp add: usePrecise_def formatMs_def formatSec_def quo_def remainder_def GetVal_def namespaced_def GetVal_onWatch_def GetContextFromState_def Add_def
      empty_Context_def Watch_def Close_def unwatch_def round_trip_def Let_def
      delete_key_def touch_def setValue_def doSetValue_def doSetValue_loop.simps SetNX_def
      doUpdateValue_def doUpdateValue_loop.simps updateValue_def Exec_IncrBy_PTTL_def
      incrby_def pttl_def MinInt64_def MaxInt64_def Millisecond_def Expire_def
      CannotSetExpiration_def example_store_def example_rate_def idle_redis_def Second_def)
  note pre = conjI [OF p1 [THEN conjunct1] conjI [OF p1 [THEN conjunct2, THEN conjunct1]
    conjI [OF p1 [THEN conjunct2, THEN conjunct2] conjI [OF p2 p3]]]]
  have "GetVal example_store 100 ''k'' example_rate 1 ?init =
      (Inl (Wrap CannotSetExpiration (''limiter: cannot get value for '' @ ''limiter:k'')), Close ?s2)"
    using lost_key_in_repair_is_surfaced [OF b neg gone] pre by blast
  then show ?thesis
    by (simp add: usePrecise_def formatMs_def formatSec_def quo_def remainder_def GetVal_def namespaced_def GetVal_onWatch_def GetContextFromState_def Add_def
      empty_Context_def Watch_def Close_def unwatch_def round_trip_def Let_def
      delete_key_def touch_def setValue_def doSetValue_def doSetValue_loop.simps SetNX_def
      doUpdateValue_def doUpdateValue_loop.simps updateValue_def Exec_IncrBy_PTTL_def
      incrby_def pttl_def MinInt64_def MaxInt64_def Millisecond_def Expire_def
      CannotSetExpiration_def example_store_def example_rate_def idle_redis_def Second_def)
qed

text \<open>
  C7, as the specification words it, does not hold in two details. The time-to-live
  that the peek step reads for an absent key is not 0: on an empty store
  \<^verbatim>\<open>doPeekValue\<close> returns count 0 and the sentinel of \<open>-2\<close> milliseconds. And the
  following \<^verbatim>\<open>Get\<close> does not create the key for every window: with a window of 500
  microseconds its conditional set is rejected and it fails with the retry-limit
  error.
\<close>

theorem Peek_absent_key_ttl_is_sentinel:
  "fst (doPeekValue example_store ''limiter:k'' (idle_redis Map.empty [])) =
     (0, - 2 * Millisecond, None) \<and>
   fst (snd (fst (doPeekValue example_store ''limiter:k'' (idle_redis Map.empty [])))) \<noteq> 0 \<and>
   fst (Get example_store 200 ''k'' (example_rate\<lparr>Period := 500000\<rparr>)
          (snd (Peek example_store 100 ''k'' (example_rate\<lparr>Period := 500000\<rparr>)
                  (idle_redis Map.empty [])))) =
     Inl (Wrap RetryExhausted ''limiter: cannot get value for limiter:k'')"
  by (simp add: Get_def GetVal_def Peek_def namespaced_def GetVal_onWatch_def Peek_onWatch_def
      GetContextFromState_def Add_def empty_Context_def Watch_def Close_def
      doPeekValue_def doPeekValue_loop.simps peekValue_def Exec_Get_PTTL_def get_def
      pttl_def Int64_def unwatch_def round_trip_def Let_def delete_key_def touch_def
      setValue_def doSetValue_def doSetValue_loop.simps SetNX_def usePrecise_def formatMs_def
      formatSec_def quo_def remainder_def RetryExhausted_def
      example_store_def example_rate_def idle_redis_def Second_def Millisecond_def)

text \<open>
  C7 (amended). For every key absent from the store, an undisturbed \<^verbatim>\<open>Peek\<close> of a
  store with a positive attempt budget succeeds, whatever the window, with count 0
  and expiration \<open>now\<close> plus the window. The time-to-live its protocol step reads is
  the store's sentinel for an absent key, \<open>-2\<close> milliseconds, not 0. The call issues
  the watch, the read batch and the release, and leaves the entries of the store as
  they were, so a following \<^verbatim>\<open>Get\<close> with a window of zero or of at least one
  millisecond still finds the key absent and creates it with count 1.
\<close>

theorem Peek_absent_key:
  assumes "0 < MaxRetry store" and "entries s (namespaced store key0) = None"
    and "script s = []"
  shows "fst (Peek store now key0 rate s) =
           Inr \<lparr>timestamp = now, window = Period rate, count = 0, expiration = now + Period rate\<rparr>
       \<and> fst (doPeekValue store (namespaced store key0)
                (snd (round_trip [WATCH (namespaced store key0)] s)
                   \<lparr>watched := [namespaced store key0], dirty := False\<rparr>)) =
           (0, - 2 * Millisecond, None)
       \<and> entries (snd (Peek store now key0 rate s)) = entries s
       \<and> issued (snd (Peek store now key0 rate s)) =
           issued s @ [[WATCH (namespaced store key0)],
                       [GET (namespaced store key0), PTTL (namespaced store key0)], [UNWATCH]]
       \<and> (Period rate = 0 \<or> Millisecond \<le> Period rate \<longrightarrow>
            fst (Get store now' key0 rate (snd (Peek store now key0 rate s))) =
              Inr \<lparr>timestamp = now', window = Period rate, count = 1,
                   expiration = now' + Period rate\<rparr> \<and>
            entries (snd (Get store now' key0 rate (snd (Peek store now key0 rate s))))
              (namespaced store key0) =
              Some (IntVal 1, if Period rate = 0 then None
                              else Some (formatMs (Period rate) * Millisecond)))"
proof -
  note p = Peek_absent [OF assms]
  have absent: "entries (snd (Peek store now key0 rate s)) (namespaced store key0) = None"
    using p(3) assms(2) by simp
  have after: "fst (Get store now' key0 rate (snd (Peek store now key0 rate s))) =
              Inr \<lparr>timestamp = now', window = Period rate, count = 1,
                   expiration = now' + Period rate\<rparr> \<and>
            entries (snd (Get store now' key0 rate (snd (Peek store now key0 rate s))))
              (namespaced store key0) =
              Some (IntVal 1, if Period rate = 0 then None
                              else Some (formatMs (Period rate) * Millisecond))"
    if w: "Period rate = 0 \<or> Millisecond \<le> Period rate"
  proof (cases "Period rate = 0")
    case True
    then show ?thesis
      using GetVal_absent_zero [OF assms(1) absent p(4) True, of now' 1]
      by (simp add: Get_def)
  next
    case False
    then have m: "Millisecond \<le> Period rate" using w by simp
    show ?thesis
      using GetVal_absent_whole [OF assms(1) absent p(4) m, of now' 1] False
      by (simp add: Get_def)
  qed
  show ?thesis
    using p(1,2,3,5) after by blast
qed

text \<open>
  An instance: \<^verbatim>\<open>Peek\<close> at instant 100 on an empty store, followed by \<^verbatim>\<open>Get\<close> at
  instant 200, with a window of one second.
\<close>

theorem Peek_absent_key_witness:
  "fst (Peek example_store 100 ''k'' example_rate (idle_redis Map.empty [])) =
     Inr \<lparr>timestamp = 100, window = Second, count = 0, expiration = 100 + Second\<rparr> \<and>
   entries (snd (Peek example_store 100 ''k'' example_rate (idle_redis Map.empty []))) ''limiter:k'' =
     None \<and>
   fst (Get example_store 200 ''k'' example_rate
          (snd (Peek example_store 100 ''k'' example_rate (idle_redis Map.empty [])))) =
     Inr \<lparr>timestamp = 200, window = Second, count = 1, expiration = 200 + Second\<rparr>"
proof -
  have budget: "0 < MaxRetry example_store"
    by (simp add: example_store_def)
  have absent: "entries (idle_redis Map.empty []) (namespaced example_store ''k'') = None"
    by (simp add: idle_redis_def)
  have quiet: "script (idle_redis Map.empty []) = []"
    by (simp add: idle_redis_def)
  have whole: "Millisecond \<le> Period example_rate"
    by (simp add: example_rate_def Second_def Millisecond_def)
  from Peek_absent_key [OF budget absent quiet, of 100 example_rate 200] whole
  show ?thesis
    by (simp add: example_store_def example_rate_def idle_redis_def namespaced_def)
qed

text \<open>
  C8. The attempt budget is a positive bound on the iterations of each retry loop.
  \<^verbatim>\<open>NewStoreWithOptions\<close> returns a store whenever the ping reports no error, with
  the configured budget, or with 1 when the configured budget is not positive;
  \<^verbatim>\<open>NewStore\<close> returns one with the budget 1; the budget of a store so built is
  positive. No call of a loop makes more attempts than the budget. When every attempt
  the budget allows fails, the loop makes exactly that many attempts and then returns
  the retry-limit error; for the increment the failing attempts meant are those that
  fail in their batch (a conflict, for one), since a failure of the repair step ends
  the loop at that attempt.
\<close>

theorem attempt_budget_bounds_retries:
  "NewStoreWithOptions options s0 =
     (case ping s0 of
        ((alive, Some e), s1) \<Rightarrow> (Inl e, s1)
      | ((alive, None), s1) \<Rightarrow>
          (Inr \<lparr>Prefix = options_Prefix options,
                MaxRetry = (if options_MaxRetry options \<le> 0 then 1
                            else options_MaxRetry options)\<rparr>, s1)) \<and>
   NewStore prefix interval s0 =
     (case ping s0 of
        ((alive, Some e), s1) \<Rightarrow> (Inl e, s1)
      | ((alive, None), s1) \<Rightarrow> (Inr \<lparr>Prefix = prefix, MaxRetry = 1\<rparr>, s1)) \<and>
   (NewStoreWithOptions options s0 = (Inr built, s0') \<longrightarrow> 0 < MaxRetry built) \<and>
   length (issued (snd (doSetValue store k T v s))) \<le> length (issued s) + nat (MaxRetry store) \<and>
   length (issued (snd (doPeekValue store k s))) \<le> length (issued s) + nat (MaxRetry store) \<and>
   count_list (issued (snd (doUpdateValue store k T v s))) [INCRBY k v, PTTL k] \<le>
     count_list (issued s) [INCRBY k v, PTTL k] + nat (MaxRetry store) \<and>
   (setValue_fails (nat (MaxRetry store)) k T v s \<longrightarrow>
      fst (doSetValue store k T v s) = (False, Some RetryExhausted) \<and>
      issued (snd (doSetValue store k T v s)) =
        issued s @ replicate (nat (MaxRetry store)) [SETNX k v T]) \<and>
   (peekValue_fails (nat (MaxRetry store)) k s \<longrightarrow>
      fst (doPeekValue store k s) = (0, 0, Some RetryExhausted) \<and>
      issued (snd (doPeekValue store k s)) =
        issued s @ replicate (nat (MaxRetry store)) [GET k, PTTL k]) \<and>
   (updateValue_fails (nat (MaxRetry store)) k T v s \<longrightarrow>
      fst (doUpdateValue store k T v s) = (0, 0, Some RetryExhausted) \<and>
      issued (snd (doUpdateValue store k T v s)) =
        issued s @ replicate (nat (MaxRetry store)) [INCRBY k v, PTTL k])"
proof -
  have built: "NewStoreWithOptions options s0 =
     (case ping s0 of
        ((alive, Some e), s1) \<Rightarrow> (Inl e, s1)
      | ((alive, None), s1) \<Rightarrow>
          (Inr \<lparr>Prefix = options_Prefix options,
                MaxRetry = (if options_MaxRetry options \<le> 0 then 1
                            else options_MaxRetry options)\<rparr>, s1))"
    by (simp add: NewStoreWithOptions_def Let_def split: prod.splits option.splits)
  have default: "NewStore prefix interval s0 =
     (case ping s0 of
        ((alive, Some e), s1) \<Rightarrow> (Inl e, s1)
      | ((alive, None), s1) \<Rightarrow> (Inr \<lparr>Prefix = prefix, MaxRetry = 1\<rparr>, s1))"
    by (simp add: NewStore_def NewStoreWithOptions_def Let_def split: prod.splits option.splits)
  have positive: "0 < MaxRetry built" if "NewStoreWithOptions options s0 = (Inr built, s0')"
    using that unfolding built by (auto split: prod.splits option.splits if_splits)
  have b1: "length (issued (snd (doSetValue store k T v s))) \<le>
      length (issued s) + nat (MaxRetry store)"
    using doSetValue_loop_bound [of 0 store k T v s] by (simp add: doSetValue_def)
  have b2: "length (issued (snd (doPeekValue store k s))) \<le>
      length (issued s) + nat (MaxRetry store)"
    using doPeekValue_loop_bound [of 0 store k s] by (simp add: doPeekValue_def)
  have b3: "count_list (issued (snd (doUpdateValue store k T v s))) [INCRBY k v, PTTL k] \<le>
     count_list (issued s) [INCRBY k v, PTTL k] + nat (MaxRetry store)"
    using doUpdateValue_loop_bound [of 0 store k T v s] by (simp add: doUpdateValue_def)
  have f1: "fst (doSetValue store k T v s) = (False, Some RetryExhausted) \<and>
      issued (snd (doSetValue store k T v s)) =
        issued s @ replicate (nat (MaxRetry store)) [SETNX k v T]"
    if "setValue_fails (nat (MaxRetry store)) k T v s"
    using doSetValue_loop_exhausts [of store 0 k T v s] that by (simp add: doSetValue_def)
  have f2: "fst (doPeekValue store k s) = (0, 0, Some RetryExhausted) \<and>
      issued (snd (doPeekValue store k s)) =
        issued s @ replicate (nat (MaxRetry store)) [GET k, PTTL k]"
    if "peekValue_fails (nat (MaxRetry store)) k s"
    using doPeekValue_loop_exhausts [of store 0 k s] that by (simp add: doPeekValue_def)
  have f3: "fst (doUpdateValue store k T v s) = (0, 0, Some RetryExhausted) \<and>
      issued (snd (doUpdateValue store k T v s)) =
        issued s @ replicate (nat (MaxRetry store)) [INCRBY k v, PTTL k]"
    if "updateValue_fails (nat (MaxRetry store)) k T v s"
    using doUpdateValue_loop_exhausts [of store 0 k T v s] that by (simp add: doUpdateValue_def)
  show ?thesis
    using built default positive b1 b2 b3 f1 f2 f3 by blast
qed

text \<open>
  Instances: the options with a budget of 3 build the sample store, the options
  with a budget of 0 and \<^verbatim>\<open>NewStore\<close> build a store with the budget 1, and with a
  budget of 3 three transaction conflicts in a row make the increment loop send its
  batch exactly three times before it fails.
\<close>

theorem attempt_budget_bounds_retries_witness:
  "fst (NewStoreWithOptions example_options (idle_redis Map.empty [])) = Inr example_store \<and>
   fst (NewStoreWithOptions (example_options\<lparr>options_MaxRetry := 0\<rparr>) (idle_redis Map.empty [])) =
     Inr \<lparr>Prefix = ''limiter'', MaxRetry = 1\<rparr> \<and>
   fst (NewStore ''limiter'' (30 * Second) (idle_redis Map.empty [])) =
     Inr \<lparr>Prefix = ''limiter'', MaxRetry = 1\<rparr> \<and>
   fst (doUpdateValue example_store ''limiter:k'' Second 1
          (idle_redis [''limiter:k'' \<mapsto> (IntVal 5, Some Second)]
             [Fault TxFailedErr, Fault TxFailedErr, Fault TxFailedErr])) =
     (0, 0, Some RetryExhausted) \<and>
   issued (snd (doUpdateValue example_store ''limiter:k'' Second 1
          (idle_redis [''limiter:k'' \<mapsto> (IntVal 5, Some Second)]
             [Fault TxFailedErr, Fault TxFailedErr, Fault TxFailedErr]))) =
     [[INCRBY ''limiter:k'' 1, PTTL ''limiter:k''], [INCRBY ''limiter:k'' 1, PTTL ''limiter:k''],
      [INCRBY ''limiter:k'' 1, PTTL ''limiter:k'']]"
proof -
  let ?conflicts = "idle_redis [''limiter:k'' \<mapsto> (IntVal 5, Some Second)]
             [Fault TxFailedErr, Fault TxFailedErr, Fault TxFailedErr]"
  have n: "nat (MaxRetry example_store) = Suc (Suc (Suc 0))"
    by (simp add: example_store_def)
  have r: "replicate (Suc (Suc (Suc 0))) x = [x, x, x]" for x :: "cmd list"
    by simp
  have u: "updateValue_fails (nat (MaxRetry example_store)) ''limiter:k'' Second 1 ?conflicts"
    unfolding n
    by (simp add: updateValue_def Exec_IncrBy_PTTL_def round_trip_def Let_def idle_redis_def)
  have alive: "ping (idle_redis Map.empty []) =
      ((True, None), (idle_redis Map.empty [])\<lparr>issued := [[PING]]\<rparr>)"
    by (simp add: ping_def Ping_def round_trip_def Let_def idle_redis_def)
  note given = attempt_budget_bounds_retries
    [where options = example_options and ?s0.0 = "idle_redis Map.empty []"
       and prefix = "''limiter''" and interval = "30 * Second"
       and store = example_store and k = "''limiter:k''" and T = Second and v = 1
       and s = ?conflicts]
  note unset = attempt_budget_bounds_retries
    [where options = "example_options\<lparr>options_MaxRetry := 0\<rparr>"
       and ?s0.0 = "idle_redis Map.empty []"]
  note exhausted = given [THEN conjunct2, THEN conjunct2, THEN conjunct2, THEN conjunct2,
      THEN conjunct2, THEN conjunct2, THEN conjunct2, THEN conjunct2, THEN mp, OF u]
  have g: "fst (NewStoreWithOptions example_options (idle_redis Map.empty [])) = Inr example_store"
    unfolding given [THEN conjunct1] alive
    by (simp add: example_options_def example_store_def)
  have z: "fst (NewStoreWithOptions (example_options\<lparr>options_MaxRetry := 0\<rparr>)
        (idle_redis Map.empty [])) = Inr \<lparr>Prefix = ''limiter'', MaxRetry = 1\<rparr>"
    unfolding unset [THEN conjunct1] alive
    by (simp add: example_options_def)
  have d: "fst (NewStore ''limiter'' (30 * Second) (idle_redis Map.empty [])) =
     Inr \<lparr>Prefix = ''limiter'', MaxRetry = 1\<rparr>"
    unfolding given [THEN conjunct2, THEN conjunct1] alive
    by simp
  show ?thesis
    using g z d exhausted unfolding n r by (simp add: idle_redis_def)
qed

text \<open>
  C9. Construction pings the backing store and fails when the ping reports an error,
  but the answer of \<^verbatim>\<open>ping\<close> to whether the reply was the acknowledgment \<open>PONG\<close> is
  dropped by \<^verbatim>\<open>NewStoreWithOptions\<close>: on a store that replies \<open>NOPE\<close> without an
  error, \<^verbatim>\<open>ping\<close> answers \<open>False\<close> and construction still returns the store.
\<close>

theorem NewStoreWithOptions_ignores_reply:
  "fst (ping ((idle_redis Map.empty [])\<lparr>ping_reply := ''NOPE''\<rparr>)) = (False, None) \<and>
   fst (NewStoreWithOptions example_options ((idle_redis Map.empty [])\<lparr>ping_reply := ''NOPE''\<rparr>)) =
     Inr example_store"
  by (simp add: NewStoreWithOptions_def ping_def Ping_def round_trip_def Let_def delete_key_def
      touch_def example_options_def example_store_def idle_redis_def)

text \<open>
  C10. \<^verbatim>\<open>Get\<close> is \<^verbatim>\<open>GetVal\<close> with the increment amount 1: for every store, instant,
  key, rate and state of the backing store both return the same result and leave the
  same state.
\<close>

theorem Get_is_GetVal_1:
  "Get store now key0 rate s = GetVal store now key0 rate 1 s"
  by (simp add: Get_def)

end
